theory Spec2Isabelle
  imports Main "HOL-Library.Word"
begin

unbundle bit_operations_syntax

section \<open>Data model of examples/cerberus/input.cpp\<close>

text \<open>
  Handles (\<open>HCURSOR\<close>, \<open>HWND\<close>, \<open>HANDLE\<close>) and thread identifiers are numbers with
  \<open>0\<close> for the null handle; no arithmetic is done on them.  \<open>LONG\<close> coordinates are
  integers; they are only compared and copied.  The show counter, a C++ \<open>int\<close> of 32
  bits, is an integer too: the code's counter is the model's as long as the value
  stays between \<open>INT_MIN\<close> and \<open>INT_MAX\<close>, beyond which the code overflows, and what is
  proved of the counter is proved for runs that stay in that range.  \<open>LPARAM\<close> is a
  signed integer, \<open>WPARAM\<close> and \<open>UINT\<close> message numbers are unsigned ones.  A pointer
  parameter that may be null is an \<open>option\<close>.
\<close>

type_synonym hcursor = nat
type_synonym hwnd = nat
type_synonym handle = nat
type_synonym tid = nat

record point =
  x :: int
  y :: int

record rect =
  left :: int
  top :: int
  right :: int
  bottom :: int

record rawinputdevice =
  usUsagePage :: nat
  usUsage :: nat
  dwFlags :: "32 word"
  hwndTarget :: hwnd

record wndproc_input_msg =
  m_hwnd :: hwnd
  m_msg :: nat
  m_wparam :: nat
  m_lparam :: int
  m_tid :: tid
  m_thread :: handle

text \<open>The exception \<open>hadesmem::Error\<close> with its \<open>ErrorString\<close> and \<open>ErrorCodeWinLast\<close>.\<close>

datatype error = Error string nat

subsection \<open>Constants of the platform headers\<close>

definition WM_INPUT :: nat where "WM_INPUT = 0x00FF"
definition WM_KEYDOWN :: nat where "WM_KEYDOWN = 0x0100"
definition WM_KEYFIRST :: nat where "WM_KEYFIRST = 0x0100"
definition WM_KEYLAST :: nat where "WM_KEYLAST = 0x0109"
definition WM_MOUSEFIRST :: nat where "WM_MOUSEFIRST = 0x0200"
definition WM_MOUSELAST :: nat where "WM_MOUSELAST = 0x020E"
definition VK_SHIFT :: nat where "VK_SHIFT = 0x10"
definition VK_F9 :: nat where "VK_F9 = 0x78"
definition INT_MIN :: int where "INT_MIN = - 2147483648"
definition INT_MAX :: int where "INT_MAX = 2147483647"
definition RIDEV_REMOVE :: "32 word" where "RIDEV_REMOVE = 0x00000001"
definition RIDEV_NOLEGACY :: "32 word" where "RIDEV_NOLEGACY = 0x00000030"
definition HID_USAGE_PAGE_GENERIC :: nat where "HID_USAGE_PAGE_GENERIC = 0x01"
definition HID_USAGE_GENERIC_MOUSE :: nat where "HID_USAGE_GENERIC_MOUSE = 0x02"
definition HID_USAGE_GENERIC_KEYBOARD :: nat where "HID_USAGE_GENERIC_KEYBOARD = 0x06"

subsection \<open>The environment: the operating system and the sibling modules\<close>

text \<open>
  The calls the module makes into the platform, with their arguments.  The field
  \<open>os_fails\<close> of the environment says which of them fail, and with which last-error
  code.
\<close>

datatype os_call =
    Call_LoadCursorW
  | Call_GetCursorPos
  | Call_SetCursorPos int int
  | Call_GetClipCursor
  | Call_ClipCursor rect
  | Call_GetWindowRect hwnd
  | Call_GetRegisteredRawInputDevices_count
  | Call_GetRegisteredRawInputDevices
  | Call_RegisterRawInputDevices rawinputdevice
  | Call_AttachThreadInput tid tid bool
  | Call_OpenThread tid

record os =
  os_cursor :: hcursor
  os_arrow_cursor :: hcursor
  os_cursor_pos :: point
  os_show_count :: int
  os_clip :: rect
  os_windows :: "(hwnd \<times> rect) list"
  os_current_window :: hwnd
  os_raw_devices :: "rawinputdevice list"
  os_key_state :: "nat \<Rightarrow> 16 word"
  os_attached :: "(tid \<times> tid) list"
  os_handles :: "(handle \<times> tid) list"
  os_fails :: "os_call \<Rightarrow> nat option"
  delivered :: "(nat \<times> hwnd \<times> nat \<times> nat \<times> int) list"

text \<open>
  \<open>os_current_window\<close> is what \<open>GetWindowInterface().GetCurrentWindow()\<close> returns
  (window.hpp), \<open>os_windows\<close> the existing windows with their bounding rectangles,
  \<open>delivered\<close> the record of what the subscribers of the input-queue callbacks have
  been called with (subscriber id, then the four arguments).
\<close>

text \<open>
  A call that reports failure through its return value and \<open>GetLastError\<close> is a function
  into a sum, with the last-error code on the left.  The platform is taken to store a
  cursor position and a clip rectangle as they are given to it.  \<open>LoadCursorW\<close>
  returns the handle of the arrow cursor, or null together with a last-error code.
\<close>

definition os_LoadCursorW :: "os \<Rightarrow> hcursor \<times> nat" where
  "os_LoadCursorW os =
     (case os_fails os Call_LoadCursorW of
        Some code \<Rightarrow> (0, code)
      | None \<Rightarrow> (os_arrow_cursor os, 0))"

text \<open>\<open>SetCursor\<close> installs a cursor and returns the one it replaces.\<close>

definition os_SetCursor :: "hcursor \<Rightarrow> os \<Rightarrow> hcursor \<times> os" where
  "os_SetCursor c os = (os_cursor os, os\<lparr>os_cursor := c\<rparr>)"

definition os_GetCursorPos :: "os \<Rightarrow> nat + point" where
  "os_GetCursorPos os =
     (case os_fails os Call_GetCursorPos of
        Some code \<Rightarrow> Inl code
      | None \<Rightarrow> Inr (os_cursor_pos os))"

definition os_SetCursorPos :: "int \<Rightarrow> int \<Rightarrow> os \<Rightarrow> nat + os" where
  "os_SetCursorPos px py os =
     (case os_fails os (Call_SetCursorPos px py) of
        Some code \<Rightarrow> Inl code
      | None \<Rightarrow> Inr (os\<lparr>os_cursor_pos := \<lparr>x = px, y = py\<rparr>\<rparr>))"

text \<open>
  \<open>ShowCursor\<close> adds one to the display counter or takes one away, and returns the
  new counter.
\<close>

definition os_ShowCursor :: "bool \<Rightarrow> os \<Rightarrow> int \<times> os" where
  "os_ShowCursor b os =
     (let c = (if b then os_show_count os + 1 else os_show_count os - 1)
      in (c, os\<lparr>os_show_count := c\<rparr>))"

definition os_GetClipCursor :: "os \<Rightarrow> nat + rect" where
  "os_GetClipCursor os =
     (case os_fails os Call_GetClipCursor of
        Some code \<Rightarrow> Inl code
      | None \<Rightarrow> Inr (os_clip os))"

definition os_ClipCursor :: "rect \<Rightarrow> os \<Rightarrow> nat + os" where
  "os_ClipCursor r os =
     (case os_fails os (Call_ClipCursor r) of
        Some code \<Rightarrow> Inl code
      | None \<Rightarrow> Inr (os\<lparr>os_clip := r\<rparr>))"

definition os_IsWindow :: "hwnd \<Rightarrow> os \<Rightarrow> bool" where
  "os_IsWindow w os = (map_of (os_windows os) w \<noteq> None)"

definition os_GetWindowRect :: "hwnd \<Rightarrow> os \<Rightarrow> nat + rect" where
  "os_GetWindowRect w os =
     (case os_fails os (Call_GetWindowRect w) of
        Some code \<Rightarrow> Inl code
      | None \<Rightarrow>
          (case map_of (os_windows os) w of
             None \<Rightarrow> Inl 1400
           | Some r \<Rightarrow> Inr r))"

text \<open>
  \<open>GetRegisteredRawInputDevices\<close> without a buffer stores the number of registered
  devices in the count it is given, and leaves the count alone when it fails; with a
  buffer it writes the devices.
\<close>

definition os_GetRegisteredRawInputDevices_count :: "nat \<Rightarrow> os \<Rightarrow> nat" where
  "os_GetRegisteredRawInputDevices_count num_devices os =
     (case os_fails os Call_GetRegisteredRawInputDevices_count of
        Some code \<Rightarrow> num_devices
      | None \<Rightarrow> length (os_raw_devices os))"

definition os_GetRegisteredRawInputDevices :: "os \<Rightarrow> nat + rawinputdevice list" where
  "os_GetRegisteredRawInputDevices os =
     (case os_fails os Call_GetRegisteredRawInputDevices of
        Some code \<Rightarrow> Inl code
      | None \<Rightarrow> Inr (os_raw_devices os))"

text \<open>
  \<open>RegisterRawInputDevices\<close> with one device: a registration for a usage page and
  usage replaces the one there is for that pair, or is added at the end; with
  \<open>RIDEV_REMOVE\<close> the pair is unregistered.
\<close>

definition same_usage :: "rawinputdevice \<Rightarrow> rawinputdevice \<Rightarrow> bool" where
  "same_usage d e = (usUsagePage d = usUsagePage e \<and> usUsage d = usUsage e)"

definition register_device :: "rawinputdevice \<Rightarrow> rawinputdevice list \<Rightarrow> rawinputdevice list" where
  "register_device d ds =
     (if dwFlags d AND RIDEV_REMOVE = RIDEV_REMOVE
      then filter (\<lambda>e. \<not> same_usage d e) ds
      else if list_ex (same_usage d) ds
      then map (\<lambda>e. if same_usage d e then d else e) ds
      else ds @ [d])"

definition os_RegisterRawInputDevices :: "rawinputdevice \<Rightarrow> os \<Rightarrow> nat + os" where
  "os_RegisterRawInputDevices d os =
     (case os_fails os (Call_RegisterRawInputDevices d) of
        Some code \<Rightarrow> Inl code
      | None \<Rightarrow> Inr (os\<lparr>os_raw_devices := register_device d (os_raw_devices os)\<rparr>))"

text \<open>
  \<open>AttachThreadInput (a, b, TRUE)\<close> attaches the input of thread \<open>a\<close> to thread \<open>b\<close>,
  with \<open>FALSE\<close> it detaches it.
\<close>

definition os_AttachThreadInput :: "tid \<Rightarrow> tid \<Rightarrow> bool \<Rightarrow> os \<Rightarrow> nat + os" where
  "os_AttachThreadInput a b attach os =
     (case os_fails os (Call_AttachThreadInput a b attach) of
        Some code \<Rightarrow> Inl code
      | None \<Rightarrow>
          Inr (os\<lparr>os_attached :=
            (if attach then (a, b) # os_attached os
             else remove1 (a, b) (os_attached os))\<rparr>))"

text \<open>\<open>OpenThread\<close> returns a handle that is not null and not open yet.\<close>

definition fresh_handle :: "(handle \<times> tid) list \<Rightarrow> handle" where
  "fresh_handle hs = Suc (foldr max (map fst hs) 0)"

definition os_OpenThread :: "tid \<Rightarrow> os \<Rightarrow> nat + (handle \<times> os)" where
  "os_OpenThread t os =
     (case os_fails os (Call_OpenThread t) of
        Some code \<Rightarrow> Inl code
      | None \<Rightarrow>
          Inr (fresh_handle (os_handles os),
               os\<lparr>os_handles := (fresh_handle (os_handles os), t) # os_handles os\<rparr>))"

definition os_CloseHandle :: "handle \<Rightarrow> os \<Rightarrow> os" where
  "os_CloseHandle h os = os\<lparr>os_handles := filter (\<lambda>p. fst p \<noteq> h) (os_handles os)\<rparr>"

definition os_GetAsyncKeyState :: "nat \<Rightarrow> os \<Rightarrow> 16 word" where
  "os_GetAsyncKeyState k os = os_key_state os k"

subsection \<open>The state of the module\<close>

text \<open>
  The function-local statics of input.cpp, one field each.  \<open>gui_visible\<close> is the flag
  behind \<open>GetGuiVisible()\<close>, which the render module owns.  \<open>last_attached\<close> holds the
  two thread-local statics of \<open>LazyAttachThreadInput\<close>, one pair for each calling
  thread.
\<close>

record input_state =
  gui_visible :: bool
  show_cursor_count :: int
  old_cursor :: "bool \<times> hcursor"
  old_cursor_pos :: "bool \<times> point"
  old_clip_cursor :: rect
  old_raw_input_devices :: "rawinputdevice list"
  queue :: "wndproc_input_msg list"
  last_attached :: "tid \<Rightarrow> tid \<times> handle"

type_synonym world = "os \<times> input_state"

text \<open>
  A call either returns or throws; the statics keep what was written before the
  throw, so both outcomes carry the world.
\<close>

datatype 'a outcome = Done 'a | Raised error world

fun run_steps :: "(world \<Rightarrow> world outcome) list \<Rightarrow> world \<Rightarrow> world outcome" where
  "run_steps [] w = Done w"
| "run_steps (f # fs) w =
     (case f w of
        Done w' \<Rightarrow> run_steps fs w'
      | Raised e w' \<Rightarrow> Raised e w')"

definition zero_point :: point where
  "zero_point = \<lparr>x = 0, y = 0\<rparr>"

definition zero_rect :: rect where
  "zero_rect = \<lparr>left = 0, top = 0, right = 0, bottom = 0\<rparr>"

definition initial_state :: input_state where
  "initial_state =
     \<lparr>gui_visible = False,
      show_cursor_count = 0,
      old_cursor = (False, 0),
      old_cursor_pos = (False, zero_point),
      old_clip_cursor = zero_rect,
      old_raw_input_devices = [],
      queue = [],
      last_attached = (\<lambda>_. (0, 0))\<rparr>"

section \<open>The cursor and clip state machine\<close>

text \<open>
  The \<open>HookDisabler\<close> objects make the module's own hooks pass through while it calls
  the hooked platform function; the calls below are therefore calls of the platform.
\<close>

definition SetOrRestoreCursor :: "bool \<Rightarrow> world \<Rightarrow> world outcome" where
  "SetOrRestoreCursor visible w =
     (case w of (os, st) \<Rightarrow>
        if visible then
          (case os_LoadCursorW os of (arrow_cursor, last_error) \<Rightarrow>
             if arrow_cursor = 0
             then Raised (Error ''LoadCursorW failed.'' last_error) (os, st)
             else (case os_SetCursor arrow_cursor os of (prev, os') \<Rightarrow>
                     Done (os', st\<lparr>old_cursor := (True, prev)\<rparr>)))
        else if fst (old_cursor st) then
          (case os_SetCursor (snd (old_cursor st)) os of (prev, os') \<Rightarrow>
             Done (os', st\<lparr>old_cursor := (True, prev)\<rparr>))
        else Done (os, st\<lparr>old_cursor := (True, snd (old_cursor st))\<rparr>))"

definition SaveCurrentCursorPos :: "world \<Rightarrow> world outcome" where
  "SaveCurrentCursorPos w =
     (case w of (os, st) \<Rightarrow>
        (case os_GetCursorPos os of
           Inl code \<Rightarrow> Raised (Error ''GetCursorPos failed.'' code) (os, st)
         | Inr cur_cursor_pos \<Rightarrow>
             Done (os, st\<lparr>old_cursor_pos := (True, cur_cursor_pos)\<rparr>)))"

definition ClearOldCursorPos :: "world \<Rightarrow> world outcome" where
  "ClearOldCursorPos w =
     (case w of (os, st) \<Rightarrow> Done (os, st\<lparr>old_cursor_pos := (False, zero_point)\<rparr>))"

definition RestoreOldCursorPos :: "world \<Rightarrow> world outcome" where
  "RestoreOldCursorPos w =
     (case w of (os, st) \<Rightarrow>
        if \<not> fst (old_cursor_pos st) then Done (os, st)
        else
          (case os_SetCursorPos (x (snd (old_cursor_pos st)))
                                (y (snd (old_cursor_pos st))) os of
             Inl code \<Rightarrow> Raised (Error ''SetCursorPos failed.'' code) (os, st)
           | Inr os' \<Rightarrow> ClearOldCursorPos (os', st)))"

text \<open>
  \<open>do { ++show_cursor_count; } while (::ShowCursor(TRUE) < 0);\<close> ends because each
  round brings the display counter of the platform one closer to zero.
\<close>

function ShowCursor_loop :: "world \<Rightarrow> world" where
  "ShowCursor_loop (os, st) =
     (if fst (os_ShowCursor True os) < 0
      then ShowCursor_loop (snd (os_ShowCursor True os),
                            st\<lparr>show_cursor_count := show_cursor_count st + 1\<rparr>)
      else (snd (os_ShowCursor True os),
            st\<lparr>show_cursor_count := show_cursor_count st + 1\<rparr>))"
  by pat_completeness auto
termination
  by (relation "measure (\<lambda>(os, st). nat (- os_show_count os))")
     (auto simp: os_ShowCursor_def Let_def)

declare ShowCursor_loop.simps [simp del]

definition ShowCursor :: "world \<Rightarrow> world outcome" where
  "ShowCursor w = Done (ShowCursor_loop w)"

text \<open>\<open>while (show_cursor_count > 0) { --show_cursor_count; ::ShowCursor(FALSE); }\<close>\<close>

function HideCursor_loop :: "world \<Rightarrow> world" where
  "HideCursor_loop (os, st) =
     (if show_cursor_count st > 0
      then HideCursor_loop (snd (os_ShowCursor False os),
                            st\<lparr>show_cursor_count := show_cursor_count st - 1\<rparr>)
      else (os, st))"
  by pat_completeness auto
termination
  by (relation "measure (\<lambda>(os, st). nat (show_cursor_count st))") auto

declare HideCursor_loop.simps [simp del]

definition HideCursor :: "world \<Rightarrow> world outcome" where
  "HideCursor w = Done (HideCursor_loop w)"

definition SaveCurrentClipCursor :: "world \<Rightarrow> world outcome" where
  "SaveCurrentClipCursor w =
     (case w of (os, st) \<Rightarrow>
        (case os_GetClipCursor os of
           Inl code \<Rightarrow> Raised (Error ''GetClipCursor failed.'' code) (os, st)
         | Inr clip_cursor \<Rightarrow> Done (os, st\<lparr>old_clip_cursor := clip_cursor\<rparr>)))"

definition ClipCursorWrap :: "rect \<Rightarrow> world \<Rightarrow> world outcome" where
  "ClipCursorWrap clip_cursor w =
     (case w of (os, st) \<Rightarrow>
        (case os_ClipCursor clip_cursor os of
           Inl code \<Rightarrow> Raised (Error ''ClipCursor failed.'' code) (os, st)
         | Inr os' \<Rightarrow> Done (os', st)))"

definition SetNewClipCursor :: "world \<Rightarrow> world outcome" where
  "SetNewClipCursor w =
     (case w of (os, st) \<Rightarrow>
        if \<not> os_IsWindow (os_current_window os) os then Done (os, st)
        else
          (case os_GetWindowRect (os_current_window os) os of
             Inl code \<Rightarrow> Raised (Error ''GetWindowRect failed.'' code) (os, st)
           | Inr new_clip_cursor \<Rightarrow>
               ClipCursorWrap
                 \<lparr>left = min (left (old_clip_cursor st)) (left new_clip_cursor),
                  top = min (top (old_clip_cursor st)) (top new_clip_cursor),
                  right = max (right (old_clip_cursor st)) (right new_clip_cursor),
                  bottom = max (bottom (old_clip_cursor st)) (bottom new_clip_cursor)\<rparr>
                 (os, st)))"

definition RestoreOldClipCursor :: "world \<Rightarrow> world outcome" where
  "RestoreOldClipCursor w = (case w of (os, st) \<Rightarrow> ClipCursorWrap (old_clip_cursor st) (os, st))"

section \<open>The raw-input redirector\<close>

definition RegisterRawInputDevicesWrapper :: "rawinputdevice \<Rightarrow> world \<Rightarrow> world outcome" where
  "RegisterRawInputDevicesWrapper d w =
     (case w of (os, st) \<Rightarrow>
        (case os_RegisterRawInputDevices d os of
           Inl code \<Rightarrow> Raised (Error ''RegisterRawInputDevices failed.'' code) (os, st)
         | Inr os' \<Rightarrow> Done (os', st)))"

definition is_mouse_device :: "rawinputdevice \<Rightarrow> bool" where
  "is_mouse_device device =
     (usUsagePage device = HID_USAGE_PAGE_GENERIC \<and> usUsage device = HID_USAGE_GENERIC_MOUSE)"

definition is_keyboard_device :: "rawinputdevice \<Rightarrow> bool" where
  "is_keyboard_device device =
     (usUsagePage device = HID_USAGE_PAGE_GENERIC \<and>
      usUsage device = HID_USAGE_GENERIC_KEYBOARD)"

definition DoesRawInputDeviceHaveMouseOrKeyboardDevice ::
  "rawinputdevice list \<Rightarrow> bool \<times> bool" where
  "DoesRawInputDeviceHaveMouseOrKeyboardDevice devices =
     (list_ex is_mouse_device devices, list_ex is_keyboard_device devices)"

definition SetRawInputDevices :: "world \<Rightarrow> world outcome" where
  "SetRawInputDevices w =
     (case w of (os, st) \<Rightarrow>
        if os_GetRegisteredRawInputDevices_count 0 os = 0 then Done (os, st)
        else
          (case os_GetRegisteredRawInputDevices os of
             Inl code \<Rightarrow> Raised (Error ''GetRegisteredRawInputDevices failed.'' code) (os, st)
           | Inr old_devices \<Rightarrow>
               (case DoesRawInputDeviceHaveMouseOrKeyboardDevice old_devices of
                  (has_mouse_device, has_keyboard_device) \<Rightarrow>
                    if \<not> has_mouse_device \<and> \<not> has_keyboard_device
                    then Done (os, st\<lparr>old_raw_input_devices := old_devices\<rparr>)
                    else
                      run_steps
                        [\<lambda>w. if has_mouse_device
                              then RegisterRawInputDevicesWrapper
                                     \<lparr>usUsagePage = HID_USAGE_PAGE_GENERIC,
                                      usUsage = HID_USAGE_GENERIC_MOUSE,
                                      dwFlags = 0,
                                      hwndTarget = os_current_window (fst w)\<rparr> w
                              else Done w,
                         \<lambda>w. if has_keyboard_device
                              then RegisterRawInputDevicesWrapper
                                     \<lparr>usUsagePage = HID_USAGE_PAGE_GENERIC,
                                      usUsage = HID_USAGE_GENERIC_KEYBOARD,
                                      dwFlags = 0,
                                      hwndTarget = os_current_window (fst w)\<rparr> w
                              else Done w]
                        (os, st\<lparr>old_raw_input_devices := old_devices\<rparr>))))"

fun RestoreRawInputDevices_loop :: "rawinputdevice list \<Rightarrow> world \<Rightarrow> world outcome" where
  "RestoreRawInputDevices_loop [] w = Done w"
| "RestoreRawInputDevices_loop (device # devices) w =
     (if is_mouse_device device
      then (case RegisterRawInputDevicesWrapper device w of
              Done w' \<Rightarrow> RestoreRawInputDevices_loop devices w'
            | Raised e w' \<Rightarrow> Raised e w')
      else if is_keyboard_device device
      then (case RegisterRawInputDevicesWrapper device w of
              Done w' \<Rightarrow> RestoreRawInputDevices_loop devices w'
            | Raised e w' \<Rightarrow> Raised e w')
      else RestoreRawInputDevices_loop devices w)"

definition RestoreRawInputDevices :: "world \<Rightarrow> world outcome" where
  "RestoreRawInputDevices w = RestoreRawInputDevices_loop (old_raw_input_devices (snd w)) w"

section \<open>The visibility transition\<close>

definition SetGuiVisibleForInput :: "bool \<Rightarrow> bool \<Rightarrow> world \<Rightarrow> world outcome" where
  "SetGuiVisibleForInput visible old_visible w =
     (if visible \<noteq> old_visible then
        (if visible then
           run_steps
             [SetOrRestoreCursor visible, SaveCurrentCursorPos, ShowCursor,
              SaveCurrentClipCursor, SetNewClipCursor, SetRawInputDevices] w
         else
           run_steps
             [SetOrRestoreCursor visible, RestoreOldCursorPos, HideCursor,
              RestoreOldClipCursor, RestoreRawInputDevices] w)
      else
        (if visible then run_steps [ClearOldCursorPos, SetNewClipCursor] w
         else ClearOldCursorPos w))"

text \<open>
  Modelled from the spec: \<open>SetGuiVisible\<close> and \<open>GetGuiVisible\<close> belong to the render
  module, which is not part of the sources at hand.  The visibility flag is a single
  process-wide boolean that every hook reads; setting the overlay's visibility stores
  the new value and runs the transition of this module with the new and the old value.
\<close>

definition SetGuiVisible :: "bool \<Rightarrow> bool \<Rightarrow> world \<Rightarrow> world outcome" where
  "SetGuiVisible visible old_visible w =
     (case w of (os, st) \<Rightarrow>
        SetGuiVisibleForInput visible old_visible (os, st\<lparr>gui_visible := visible\<rparr>))"

definition ToggleGuiVisible :: "world \<Rightarrow> world outcome" where
  "ToggleGuiVisible w = SetGuiVisible (\<not> gui_visible (snd w)) (\<not> \<not> gui_visible (snd w)) w"

section \<open>The hooks\<close>

text \<open>
  A hook receives \<open>bool* handled\<close> and, where the hooked function returns a value, a
  pointer to the return value; both are read and written by the chain of callbacks, so
  the model takes their current values and returns the new ones.
\<close>

definition OnSetCursor ::
  "hcursor \<Rightarrow> bool \<times> hcursor \<Rightarrow> input_state \<Rightarrow> input_state \<times> bool \<times> hcursor" where
  "OnSetCursor cursor out st =
     (case out of (handled, retval) \<Rightarrow>
        (st\<lparr>old_cursor := (True, cursor)\<rparr>,
         if gui_visible st then (True, snd (old_cursor st)) else (handled, retval)))"

definition OnDirectInput :: "bool \<Rightarrow> input_state \<Rightarrow> bool" where
  "OnDirectInput handled st = (if gui_visible st then True else handled)"

definition OnGetCursorPos :: "point option \<Rightarrow> bool \<Rightarrow> input_state \<Rightarrow> point option \<times> bool" where
  "OnGetCursorPos pt handled st =
     (case pt of
        Some p \<Rightarrow>
          if gui_visible st
          then (Some (p\<lparr>x := x (snd (old_cursor_pos st)), y := y (snd (old_cursor_pos st))\<rparr>),
                True)
          else (pt, handled)
      | None \<Rightarrow> (pt, handled))"

definition OnSetCursorPos :: "int \<Rightarrow> int \<Rightarrow> bool \<Rightarrow> input_state \<Rightarrow> input_state \<times> bool" where
  "OnSetCursorPos px py handled st =
     (if gui_visible st
      then (st\<lparr>old_cursor_pos := (True, (snd (old_cursor_pos st))\<lparr>x := px, y := py\<rparr>)\<rparr>, True)
      else (st, handled))"

definition OnShowCursor ::
  "bool \<Rightarrow> bool \<times> int \<Rightarrow> input_state \<Rightarrow> input_state \<times> bool \<times> int" where
  "OnShowCursor show out st =
     (case out of (handled, retval) \<Rightarrow>
        if gui_visible st
        then (let c = (if show then show_cursor_count st + 1 else show_cursor_count st - 1)
              in (st\<lparr>show_cursor_count := c\<rparr>, True, c))
        else (st, handled, retval))"

definition OnClipCursor ::
  "rect option \<Rightarrow> bool \<times> bool \<Rightarrow> input_state \<Rightarrow> input_state \<times> bool \<times> bool" where
  "OnClipCursor r out st =
     (case out of (handled, retval) \<Rightarrow>
        (case r of
           Some rc \<Rightarrow>
             if gui_visible st then (st\<lparr>old_clip_cursor := rc\<rparr>, True, True)
             else (st, handled, retval)
         | None \<Rightarrow> (st, handled, retval)))"

definition OnGetClipCursor ::
  "rect option \<Rightarrow> bool \<times> bool \<Rightarrow> input_state \<Rightarrow> rect option \<times> bool \<times> bool" where
  "OnGetClipCursor r out st =
     (case out of (handled, retval) \<Rightarrow>
        (case r of
           Some rc \<Rightarrow>
             if gui_visible st then (Some (old_clip_cursor st), True, True)
             else (r, handled, retval)
         | None \<Rightarrow> (r, handled, retval)))"

text \<open>
  The raw-input hooks.  A buffer is the bytes at the pointer the caller gave;
  \<open>ZeroMemory\<close> clears its first \<open>n\<close> bytes (a buffer shorter than \<open>n\<close> is cleared
  whole: what lies behind it is not part of the model).  \<open>OnGetRawInputBuffer\<close> does
  not name its \<open>data\<close> and \<open>size\<close> parameters; the model hands both back as they came.
\<close>

definition ZeroMemory :: "8 word list \<Rightarrow> nat \<Rightarrow> 8 word list" where
  "ZeroMemory buf n = replicate (min n (length buf)) 0 @ drop n buf"

definition OnGetRawInputBuffer ::
  "8 word list option \<Rightarrow> 32 word option \<Rightarrow> 32 word \<Rightarrow> bool \<times> 32 word \<Rightarrow> input_state \<Rightarrow>
     8 word list option \<times> 32 word option \<times> bool \<times> 32 word" where
  "OnGetRawInputBuffer data sz size_header out st =
     (case out of (handled, retval) \<Rightarrow>
        if gui_visible st then (data, sz, True, - 1)
        else (data, sz, handled, retval))"

definition OnGetRawInputData ::
  "nat \<Rightarrow> 32 word \<Rightarrow> 8 word list option \<Rightarrow> 32 word option \<Rightarrow> 32 word \<Rightarrow> bool \<times> 32 word \<Rightarrow>
     input_state \<Rightarrow> 8 word list option \<times> 32 word option \<times> bool \<times> 32 word" where
  "OnGetRawInputData raw_input command data sz size_header out st =
     (case out of (handled, retval) \<Rightarrow>
        (case (data, sz) of
           (Some buf, Some n) \<Rightarrow>
             if gui_visible st then (Some (ZeroMemory buf (unat n)), sz, True, - 1)
             else (data, sz, handled, retval)
         | _ \<Rightarrow> (data, sz, handled, retval)))"

text \<open>
  What \<open>OnRegisterRawInputDevices\<close> writes to the trace, one entry for each
  \<open>HADESMEM_DETAIL_TRACE_FORMAT_A\<close> it reaches.  The loop reads \<open>num_devices\<close> entries
  of the array; the model reads those that exist.
\<close>

datatype trace =
    Trace_Device nat rawinputdevice
  | Trace_NoLegacy nat
  | Trace_Removed nat

definition trace_device :: "rawinputdevice list \<Rightarrow> nat \<Rightarrow> trace list" where
  "trace_device r i =
     [Trace_Device i (r ! i)] @
     (if dwFlags (r ! i) AND RIDEV_NOLEGACY = RIDEV_NOLEGACY then [Trace_NoLegacy i] else []) @
     (if dwFlags (r ! i) AND RIDEV_REMOVE = RIDEV_REMOVE then [Trace_Removed i] else [])"

definition OnRegisterRawInputDevices ::
  "rawinputdevice list option \<Rightarrow> nat \<Rightarrow> nat \<Rightarrow> bool \<times> bool \<Rightarrow> input_state \<Rightarrow>
     trace list \<times> bool \<times> bool" where
  "OnRegisterRawInputDevices raw_input_devices num_devices sz out st =
     (case out of (handled, retval) \<Rightarrow>
        (case raw_input_devices of
           None \<Rightarrow> ([], handled, retval)
         | Some r \<Rightarrow>
             (concat (map (trace_device r) [0 ..< min num_devices (length r)]),
              if gui_visible st then (True, False) else (handled, retval))))"

section \<open>The cross-thread input attacher\<close>

text \<open>
  \<open>current_tid\<close> is \<open>GetCurrentThreadId()\<close>, the thread that makes the call; the
  thread-local statics \<open>last_attached_tid\<close> and \<open>last_attached_thread\<close> are the pair
  \<open>last_attached st current_tid\<close>.
\<close>

definition LazyAttachThreadInput :: "tid \<Rightarrow> tid \<Rightarrow> world \<Rightarrow> world outcome" where
  "LazyAttachThreadInput current_tid t w =
     (if current_tid \<noteq> t \<and> fst (last_attached (snd w) current_tid) \<noteq> t then
        run_steps
          [\<lambda>(os, st).
             if fst (last_attached st current_tid) \<noteq> 0 then
               (case os_AttachThreadInput current_tid (fst (last_attached st current_tid))
                       False os of
                  Inl code \<Rightarrow> Raised (Error ''AttachThreadInput failed.'' code) (os, st)
                | Inr os' \<Rightarrow>
                    if snd (last_attached st current_tid) \<noteq> 0
                    then Done (os_CloseHandle (snd (last_attached st current_tid)) os',
                               st\<lparr>last_attached := (last_attached st)(current_tid := (0, 0))\<rparr>)
                    else Done (os',
                               st\<lparr>last_attached := (last_attached st)
                                    (current_tid := (0, snd (last_attached st current_tid)))\<rparr>))
             else Done (os, st),
           \<lambda>(os, st).
             (case os_AttachThreadInput current_tid t True os of
                Inl code \<Rightarrow> Raised (Error ''AttachThreadInput failed.'' code) (os, st)
              | Inr os' \<Rightarrow>
                  Done (os', st\<lparr>last_attached := (last_attached st)
                                  (current_tid := (t, snd (last_attached st current_tid)))\<rparr>)),
           \<lambda>(os, st).
             (case os_OpenThread t os of
                Inl code \<Rightarrow> Raised (Error ''OpenThread failed.'' code) (os, st)
              | Inr (thread, os') \<Rightarrow>
                  Done (os', st\<lparr>last_attached := (last_attached st)
                                  (current_tid := (fst (last_attached st current_tid), thread))\<rparr>))]
          w
      else Done w)"

section \<open>The deferred input queue\<close>

text \<open>
  The constructor of \<open>WndProcInputMsg\<close> opens the thread and throws when that fails;
  \<open>WindowProcCallback\<close> pushes the entry before it looks at the message.  The
  recursive mutex makes a push and a drain exclude each other between threads; the
  model is sequential, and a push during a drain is one made by a subscriber on the
  draining thread.
\<close>

definition WindowProcCallback ::
  "tid \<Rightarrow> hwnd \<Rightarrow> nat \<Rightarrow> nat \<Rightarrow> int \<Rightarrow> bool \<Rightarrow> world \<Rightarrow> (bool \<times> world) outcome" where
  "WindowProcCallback current_tid hwnd msg wparam lparam handled w =
     (case w of (os, st) \<Rightarrow>
        (case os_OpenThread current_tid os of
           Inl code \<Rightarrow> Raised (Error ''OpenThread failed.'' code) (os, st)
         | Inr (thread, os1) \<Rightarrow>
             (let st1 = st\<lparr>queue := queue st @
                          [\<lparr>m_hwnd = hwnd, m_msg = msg, m_wparam = wparam, m_lparam = lparam,
                            m_tid = current_tid, m_thread = thread\<rparr>]\<rparr>
              in
                if msg = WM_KEYDOWN \<and> drop_bit 30 lparam AND 1 = 0 \<and> wparam = VK_F9 \<and>
                   os_GetAsyncKeyState VK_SHIFT os1 AND 0x8000 \<noteq> 0
                then (case ToggleGuiVisible (os1, st1) of
                        Done w' \<Rightarrow> Done (True, w')
                      | Raised e w' \<Rightarrow> Raised e w')
                else if gui_visible st1 \<and>
                        (msg = WM_INPUT \<or> (msg \<ge> WM_KEYFIRST \<and> msg \<le> WM_KEYLAST) \<or>
                         (msg \<ge> WM_MOUSEFIRST \<and> msg \<le> WM_MOUSELAST))
                then Done (True, (os1, st1))
                else Done (handled, (os1, st1)))))"

text \<open>
  Modelled from the spec: \<open>Callbacks::Run\<close> is defined in callbacks.hpp, which is not
  part of the sources at hand.  Broadcast invokes every currently registered
  subscriber, in registration order, synchronously on the calling thread.  A subscriber
  is given by its handle and by the entries that it pushes onto the queue while it
  runs (a callback invoked during the drain may itself push new entries); each
  invocation is recorded in \<open>delivered\<close>.
\<close>

type_synonym subscriber = "nat \<times> (hwnd \<Rightarrow> nat \<Rightarrow> nat \<Rightarrow> int \<Rightarrow> wndproc_input_msg list)"

fun Run :: "subscriber list \<Rightarrow> hwnd \<Rightarrow> nat \<Rightarrow> nat \<Rightarrow> int \<Rightarrow> world \<Rightarrow> world" where
  "Run [] hwnd msg wparam lparam w = w"
| "Run ((sid, callback) # callbacks) hwnd msg wparam lparam (os, st) =
     Run callbacks hwnd msg wparam lparam
       (os\<lparr>delivered := delivered os @ [(sid, hwnd, msg, wparam, lparam)]\<rparr>,
        st\<lparr>queue := queue st @ callback hwnd msg wparam lparam\<rparr>)"

text \<open>
  \<open>queue.pop()\<close> destroys the front entry, whose \<open>SmartHandle\<close> closes the thread
  handle.
\<close>

definition queue_pop :: "world \<Rightarrow> world" where
  "queue_pop w =
     (case w of (os, st) \<Rightarrow>
        (case queue st of
           [] \<Rightarrow> (os, st)
         | msg # rest \<Rightarrow> (os_CloseHandle (m_thread msg) os, st\<lparr>queue := rest\<rparr>)))"

text \<open>
  \<open>while (!queue.empty())\<close> need not end when subscribers keep pushing, so the loop
  has fuel: one unit for each round, \<open>None\<close> when it runs out with entries left.
\<close>

fun HandleInputQueue :: "nat \<Rightarrow> subscriber list \<Rightarrow> tid \<Rightarrow> world \<Rightarrow> world outcome option" where
  "HandleInputQueue fuel callbacks current_tid (os, st) =
     (case queue st of
        [] \<Rightarrow> Some (Done (os, st))
      | msg # rest \<Rightarrow>
          (case fuel of
             0 \<Rightarrow> None
           | Suc fuel' \<Rightarrow>
               (case LazyAttachThreadInput current_tid (m_tid msg) (os, st) of
                  Raised e w' \<Rightarrow> Some (Raised e w')
                | Done w' \<Rightarrow>
                    HandleInputQueue fuel' callbacks current_tid
                      (queue_pop
                         (Run callbacks (m_hwnd msg) (m_msg msg) (m_wparam msg) (m_lparam msg)
                            w')))))"

declare HandleInputQueue.simps [simp del]

section \<open>A concrete environment\<close>

text \<open>
  A host with a custom cursor, a hidden cursor (display counter \<open>-2\<close>), a clip
  rectangle, one window, and three raw-input registrations: a mouse, a joystick and a
  keyboard, all delivering to window \<open>9\<close>.  Shift is held down and no call fails.
\<close>

definition example_devices :: "rawinputdevice list" where
  "example_devices =
     [\<lparr>usUsagePage = 1, usUsage = 2, dwFlags = 0, hwndTarget = 9\<rparr>,
      \<lparr>usUsagePage = 1, usUsage = 4, dwFlags = 0, hwndTarget = 9\<rparr>,
      \<lparr>usUsagePage = 1, usUsage = 6, dwFlags = 0x30, hwndTarget = 9\<rparr>]"

definition example_os :: os where
  "example_os =
     \<lparr>os_cursor = 7,
      os_arrow_cursor = 3,
      os_cursor_pos = \<lparr>x = 100, y = 200\<rparr>,
      os_show_count = - 2,
      os_clip = \<lparr>left = 0, top = 0, right = 800, bottom = 600\<rparr>,
      os_windows = [(5, \<lparr>left = 100, top = 50, right = 1000, bottom = 700\<rparr>)],
      os_current_window = 5,
      os_raw_devices = example_devices,
      os_key_state = (\<lambda>k. if k = VK_SHIFT then 0x8000 else 0),
      os_attached = [],
      os_handles = [],
      os_fails = (\<lambda>_. None),
      delivered = []\<rparr>"

text \<open>The world after the overlay has been turned on in \<open>example_os\<close>.\<close>

definition example_os_on :: os where
  "example_os_on =
     example_os
       \<lparr>os_cursor := 3,
        os_show_count := 0,
        os_clip := \<lparr>left = 0, top = 0, right = 1000, bottom = 700\<rparr>,
        os_raw_devices :=
          [\<lparr>usUsagePage = 1, usUsage = 2, dwFlags = 0, hwndTarget = 5\<rparr>,
           \<lparr>usUsagePage = 1, usUsage = 4, dwFlags = 0, hwndTarget = 9\<rparr>,
           \<lparr>usUsagePage = 1, usUsage = 6, dwFlags = 0, hwndTarget = 5\<rparr>]\<rparr>"

definition example_state_on :: input_state where
  "example_state_on =
     initial_state
       \<lparr>show_cursor_count := 2,
        old_cursor := (True, 7),
        old_cursor_pos := (True, \<lparr>x = 100, y = 200\<rparr>),
        old_clip_cursor := \<lparr>left = 0, top = 0, right = 800, bottom = 600\<rparr>,
        old_raw_input_devices := example_devices\<rparr>"

text \<open>The state after it has been turned off again.\<close>

definition example_state_off :: input_state where
  "example_state_off =
     initial_state
       \<lparr>old_cursor := (True, 3),
        old_clip_cursor := \<lparr>left = 0, top = 0, right = 800, bottom = 600\<rparr>,
        old_raw_input_devices := example_devices\<rparr>"

text \<open>The same state once the render module has stored the flag.\<close>

definition example_state_visible :: input_state where
  "example_state_visible = example_state_on\<lparr>gui_visible := True\<rparr>"

section \<open>Runs of the system\<close>

text \<open>
  What can happen to the statics of the module: the render module stores the
  visibility flag, the transition of this module is called, or both at once
  (\<open>SetGuiVisible\<close>); the host calls a hooked function, a window message arrives, the
  queue is drained, or the platform's own state changes.  The hooks that write nothing (\<open>OnGetCursorPos\<close>, \<open>OnGetClipCursor\<close>,
  \<open>OnDirectInput\<close> and the raw-input hooks) are left out.  A call that throws leaves
  the world as it was at the throw; a drain that does not return within its fuel is
  not a step.
\<close>

fun world_of :: "world outcome \<Rightarrow> world" where
  "world_of (Done w) = w"
| "world_of (Raised e w) = w"

datatype event =
    Ev_GuiVisible bool
  | Ev_SetGuiVisibleForInput bool bool
  | Ev_SetGuiVisible bool bool
  | Ev_OnSetCursor hcursor
  | Ev_OnSetCursorPos int int
  | Ev_OnShowCursor bool
  | Ev_OnClipCursor "rect option"
  | Ev_WindowProc tid hwnd nat nat int
  | Ev_HandleInputQueue nat "subscriber list" tid
  | Ev_Platform os

fun step :: "event \<Rightarrow> world \<Rightarrow> world" where
  "step (Ev_GuiVisible visible) (os, st) = (os, st\<lparr>gui_visible := visible\<rparr>)"
| "step (Ev_SetGuiVisibleForInput visible old_visible) w =
     world_of (SetGuiVisibleForInput visible old_visible w)"
| "step (Ev_SetGuiVisible visible old_visible) w = world_of (SetGuiVisible visible old_visible w)"
| "step (Ev_OnSetCursor cursor) (os, st) = (os, fst (OnSetCursor cursor (False, 0) st))"
| "step (Ev_OnSetCursorPos px py) (os, st) = (os, fst (OnSetCursorPos px py False st))"
| "step (Ev_OnShowCursor show) (os, st) = (os, fst (OnShowCursor show (False, 0) st))"
| "step (Ev_OnClipCursor r) (os, st) = (os, fst (OnClipCursor r (False, False) st))"
| "step (Ev_WindowProc current_tid hwnd msg wparam lparam) w =
     (case WindowProcCallback current_tid hwnd msg wparam lparam False w of
        Done (handled, w') \<Rightarrow> w'
      | Raised e w' \<Rightarrow> w')"
| "step (Ev_HandleInputQueue fuel callbacks current_tid) w =
     (case HandleInputQueue fuel callbacks current_tid w of
        Some r \<Rightarrow> world_of r
      | None \<Rightarrow> w)"
| "step (Ev_Platform os') (os, st) = (os', st)"

fun run_events :: "event list \<Rightarrow> world \<Rightarrow> world" where
  "run_events [] w = w"
| "run_events (e # es) w = run_events es (step e w)"

text \<open>
  A run in which no hide-cursor hook call (\<open>ShowCursor (FALSE)\<close> by the host) is made
  while the overlay is visible.
\<close>

fun no_hide_while_visible :: "event list \<Rightarrow> world \<Rightarrow> bool" where
  "no_hide_while_visible [] w = True"
| "no_hide_while_visible (e # es) w =
     ((e \<noteq> Ev_OnShowCursor False \<or> \<not> gui_visible (snd w)) \<and>
      no_hide_while_visible es (step e w))"

text \<open>
  A run in which the show counter is within the range of the code's \<open>int\<close> in every
  state that the run goes through.  From one state of a run to the next the counter
  moves in one direction only, by ones (a hook call adds or takes one, the turn-on
  only adds, the turn-off only takes away), so in such a run no addition and no
  subtraction of the code overflows.
\<close>

definition in_int_range :: "int \<Rightarrow> bool" where
  "in_int_range c = (INT_MIN \<le> c \<and> c \<le> INT_MAX)"

fun counts_in_range :: "event list \<Rightarrow> world \<Rightarrow> bool" where
  "counts_in_range [] w = in_int_range (show_cursor_count (snd w))"
| "counts_in_range (e # es) w =
     (in_int_range (show_cursor_count (snd w)) \<and> counts_in_range es (step e w))"

section \<open>Notions used to state the properties\<close>

text \<open>
  What the subscribers receive for one queue entry, in registration order, and the
  entries that they push while they are called with it.
\<close>

definition deliveries ::
  "subscriber list \<Rightarrow> wndproc_input_msg \<Rightarrow> (nat \<times> hwnd \<times> nat \<times> nat \<times> int) list" where
  "deliveries callbacks e =
     map (\<lambda>s. (fst s, m_hwnd e, m_msg e, m_wparam e, m_lparam e)) callbacks"

definition pushed_by :: "subscriber list \<Rightarrow> wndproc_input_msg \<Rightarrow> wndproc_input_msg list" where
  "pushed_by callbacks e =
     concat (map (\<lambda>s. snd s (m_hwnd e) (m_msg e) (m_wparam e) (m_lparam e)) callbacks)"

text \<open>
  What the claim says of a drain, told on the queue alone.  A round takes the entry
  at the front, which the subscribers are then called with, and puts what they push
  behind the entries that wait.  \<open>fifo_rounds n callbacks q\<close> is the list of the
  entries taken in the first \<open>n\<close> rounds, in that order, and the queue that is left
  after them; the rounds end early when the queue is empty.
\<close>

fun fifo_rounds ::
  "nat \<Rightarrow> subscriber list \<Rightarrow> wndproc_input_msg list \<Rightarrow>
     wndproc_input_msg list \<times> wndproc_input_msg list" where
  "fifo_rounds 0 callbacks q = ([], q)"
| "fifo_rounds (Suc n) callbacks [] = ([], [])"
| "fifo_rounds (Suc n) callbacks (e # q) =
     (e # fst (fifo_rounds n callbacks (q @ pushed_by callbacks e)),
      snd (fifo_rounds n callbacks (q @ pushed_by callbacks e)))"

text \<open>The smallest rectangle around two rectangles.\<close>

definition clip_union :: "rect \<Rightarrow> rect \<Rightarrow> rect" where
  "clip_union a b =
     \<lparr>left = min (left a) (left b), top = min (top a) (top b),
      right = max (right a) (right b), bottom = max (bottom a) (bottom b)\<rparr>"

text \<open>
  Two subscribers: the first answers message \<open>1\<close> by having message \<open>3\<close> sent to the
  same window (which the window-procedure hook pushes onto the queue), the second
  only listens.  Two entries wait in the queue, one from thread \<open>2\<close> and one from
  thread \<open>1\<close>.
\<close>

definition example_subscribers :: "subscriber list" where
  "example_subscribers =
     [(10, \<lambda>h m wp lp.
             if m = 1
             then [\<lparr>m_hwnd = h, m_msg = 3, m_wparam = 0, m_lparam = 0, m_tid = 1, m_thread = 0\<rparr>]
             else []),
      (11, \<lambda>h m wp lp. [])]"

definition example_queue :: "wndproc_input_msg list" where
  "example_queue =
     [\<lparr>m_hwnd = 5, m_msg = 1, m_wparam = 0, m_lparam = 0, m_tid = 2, m_thread = 1\<rparr>,
      \<lparr>m_hwnd = 5, m_msg = 2, m_wparam = 0, m_lparam = 0, m_tid = 1, m_thread = 2\<rparr>]"

definition example_os_queued :: os where
  "example_os_queued = example_os\<lparr>os_handles := [(1, 2), (2, 1)]\<rparr>"

definition example_state_queued :: input_state where
  "example_state_queued = initial_state\<lparr>queue := example_queue\<rparr>"

text \<open>Thread \<open>1\<close> is attached to thread \<open>2\<close> and holds the handle \<open>4\<close> to it.\<close>

definition example_os_attached :: os where
  "example_os_attached = example_os\<lparr>os_attached := [(1, 2)], os_handles := [(4, 2)]\<rparr>"

definition example_state_attached :: input_state where
  "example_state_attached = initial_state\<lparr>last_attached := (\<lambda>_. (0, 0))(1 := (2, 4))\<rparr>"

text \<open>
  The entries of two key-down messages from thread \<open>1\<close> to window \<open>5\<close>: the key
  \<open>A\<close>, and the hotkey \<open>F9\<close>.
\<close>

definition example_key_entry :: wndproc_input_msg where
  "example_key_entry =
     \<lparr>m_hwnd = 5, m_msg = WM_KEYDOWN, m_wparam = 0x41, m_lparam = 0, m_tid = 1, m_thread = 1\<rparr>"

definition example_hotkey_entry :: wndproc_input_msg where
  "example_hotkey_entry =
     \<lparr>m_hwnd = 5, m_msg = WM_KEYDOWN, m_wparam = VK_F9, m_lparam = 0, m_tid = 1, m_thread = 2\<rparr>"

text \<open>
  The world some time after the turn-on: the render module has stored the flag, the
  host has set a cursor, moved the cursor and shown it once more through the hooks,
  and a key message has arrived.
\<close>

definition example_os_busy :: os where
  "example_os_busy = example_os_on\<lparr>os_handles := [(1, 1)]\<rparr>"

definition example_state_busy :: input_state where
  "example_state_busy =
     example_state_on
       \<lparr>gui_visible := True,
        show_cursor_count := 3,
        old_cursor := (True, 8),
        old_cursor_pos := (True, \<lparr>x = 1, y = 2\<rparr>),
        queue := [example_key_entry]\<rparr>"

section \<open>What each step of the transition does\<close>

lemma run_steps_Cons_Done:
  "run_steps (f # fs) w = Done w'' \<longleftrightarrow> (\<exists>w'. f w = Done w' \<and> run_steps fs w' = Done w'')"
  by (simp split: outcome.splits)

lemma ex_os_clip: "\<exists>r. a = a\<lparr>os_clip := r\<rparr>"
  by (rule exI[of _ "os_clip a"]) simp

lemma ex_os_raw_devices: "\<exists>ds. a = a\<lparr>os_raw_devices := ds\<rparr>"
  by (rule exI[of _ "os_raw_devices a"]) simp

lemma SetOrRestoreCursor_Done:
  "SetOrRestoreCursor v w = Done w' \<Longrightarrow>
     w' = ((fst w)\<lparr>os_cursor :=
              (if v then os_arrow_cursor (fst w)
               else if fst (old_cursor (snd w)) then snd (old_cursor (snd w))
               else os_cursor (fst w))\<rparr>,
           (snd w)\<lparr>old_cursor :=
              (True, if v \<or> fst (old_cursor (snd w)) then os_cursor (fst w)
                     else snd (old_cursor (snd w)))\<rparr>)"
  by (cases w)
     (auto simp: SetOrRestoreCursor_def os_SetCursor_def os_LoadCursorW_def
           split: if_splits sum.splits option.splits)

lemma SaveCurrentCursorPos_Done:
  "SaveCurrentCursorPos w = Done w' \<Longrightarrow>
     w' = (fst w, (snd w)\<lparr>old_cursor_pos := (True, os_cursor_pos (fst w))\<rparr>)"
  by (cases w)
     (auto simp: SaveCurrentCursorPos_def os_GetCursorPos_def split: sum.splits option.splits)

text \<open>
  The first loop runs once, or as often as the display counter is below zero; the
  second as often as the module's own counter is above zero.
\<close>

lemma ShowCursor_loop_eq:
  "ShowCursor_loop (os, st) =
     (os\<lparr>os_show_count := os_show_count os + max 1 (- os_show_count os)\<rparr>,
      st\<lparr>show_cursor_count := show_cursor_count st + max 1 (- os_show_count os)\<rparr>)"
proof (induction "(os, st)" arbitrary: os st rule: ShowCursor_loop.induct)
  case (1 os st)
  show ?case
  proof (cases "fst (os_ShowCursor True os) < 0")
    case True
    then show ?thesis
      using 1[OF True]
      by (subst ShowCursor_loop.simps) (simp add: os_ShowCursor_def Let_def max_def)
  next
    case False
    then show ?thesis
      by (subst ShowCursor_loop.simps) (simp add: os_ShowCursor_def Let_def max_def)
  qed
qed

lemma HideCursor_loop_eq:
  "HideCursor_loop (os, st) =
     (os\<lparr>os_show_count := os_show_count os - max 0 (show_cursor_count st)\<rparr>,
      st\<lparr>show_cursor_count := min (show_cursor_count st) 0\<rparr>)"
proof (induction "(os, st)" arbitrary: os st rule: HideCursor_loop.induct)
  case (1 os st)
  show ?case
  proof (cases "show_cursor_count st > 0")
    case True
    then show ?thesis
      using 1[OF True]
      by (subst HideCursor_loop.simps) (simp add: os_ShowCursor_def Let_def max_def min_def)
  next
    case False
    then show ?thesis
      by (subst HideCursor_loop.simps) (simp add: max_def min_def)
  qed
qed

lemma ShowCursor_Done:
  "ShowCursor w = Done w' \<Longrightarrow>
     w' = ((fst w)\<lparr>os_show_count := os_show_count (fst w) + max 1 (- os_show_count (fst w))\<rparr>,
           (snd w)\<lparr>show_cursor_count :=
              show_cursor_count (snd w) + max 1 (- os_show_count (fst w))\<rparr>)"
  by (cases w) (simp add: ShowCursor_def ShowCursor_loop_eq)

lemma HideCursor_Done:
  "HideCursor w = Done w' \<Longrightarrow>
     w' = ((fst w)\<lparr>os_show_count := os_show_count (fst w) - max 0 (show_cursor_count (snd w))\<rparr>,
           (snd w)\<lparr>show_cursor_count := min (show_cursor_count (snd w)) 0\<rparr>)"
  by (cases w) (simp add: HideCursor_def HideCursor_loop_eq)

lemma SaveCurrentClipCursor_Done:
  "SaveCurrentClipCursor w = Done w' \<Longrightarrow>
     w' = (fst w, (snd w)\<lparr>old_clip_cursor := os_clip (fst w)\<rparr>)"
  by (cases w)
     (auto simp: SaveCurrentClipCursor_def os_GetClipCursor_def split: sum.splits option.splits)

lemma ClipCursorWrap_Done:
  "ClipCursorWrap r w = Done w' \<Longrightarrow> w' = ((fst w)\<lparr>os_clip := r\<rparr>, snd w)"
  by (cases w)
     (auto simp: ClipCursorWrap_def os_ClipCursor_def split: sum.splits option.splits)

lemma SetNewClipCursor_Done:
  "SetNewClipCursor w = Done w' \<Longrightarrow> \<exists>r. w' = ((fst w)\<lparr>os_clip := r\<rparr>, snd w)"
  by (cases w)
     (auto simp: SetNewClipCursor_def ex_os_clip split: sum.splits if_splits
           dest!: ClipCursorWrap_Done)

lemma RestoreOldClipCursor_Done:
  "RestoreOldClipCursor w = Done w' \<Longrightarrow>
     w' = ((fst w)\<lparr>os_clip := old_clip_cursor (snd w)\<rparr>, snd w)"
  by (cases w) (auto simp: RestoreOldClipCursor_def dest!: ClipCursorWrap_Done)

lemma ClearOldCursorPos_Done:
  "ClearOldCursorPos w = Done w' \<Longrightarrow>
     w' = (fst w, (snd w)\<lparr>old_cursor_pos := (False, zero_point)\<rparr>)"
  by (cases w) (auto simp: ClearOldCursorPos_def)

lemma RestoreOldCursorPos_Done:
  "RestoreOldCursorPos w = Done w' \<Longrightarrow>
     w' = (if fst (old_cursor_pos (snd w))
           then ((fst w)\<lparr>os_cursor_pos := snd (old_cursor_pos (snd w))\<rparr>,
                 (snd w)\<lparr>old_cursor_pos := (False, zero_point)\<rparr>)
           else w)"
  by (cases w)
     (auto simp: RestoreOldCursorPos_def ClearOldCursorPos_def os_SetCursorPos_def
           split: sum.splits option.splits if_splits)

lemma RegisterRawInputDevicesWrapper_Done:
  "RegisterRawInputDevicesWrapper d w = Done w' \<Longrightarrow>
     \<exists>ds. w' = ((fst w)\<lparr>os_raw_devices := ds\<rparr>, snd w)"
  by (cases w)
     (auto simp: RegisterRawInputDevicesWrapper_def os_RegisterRawInputDevices_def
           split: sum.splits option.splits)

lemma RestoreRawInputDevices_loop_Done:
  "RestoreRawInputDevices_loop devs w = Done w' \<Longrightarrow>
     \<exists>ds. w' = ((fst w)\<lparr>os_raw_devices := ds\<rparr>, snd w)"
proof (induction devs arbitrary: w)
  case Nil
  then show ?case by (cases w) (auto simp: ex_os_raw_devices)
next
  case (Cons d devs)
  then show ?case
    by (fastforce split: if_splits outcome.splits dest!: RegisterRawInputDevicesWrapper_Done)
qed

lemma RestoreRawInputDevices_Done:
  "RestoreRawInputDevices w = Done w' \<Longrightarrow>
     \<exists>ds. w' = ((fst w)\<lparr>os_raw_devices := ds\<rparr>, snd w)"
  unfolding RestoreRawInputDevices_def by (rule RestoreRawInputDevices_loop_Done)

lemma SetRawInputDevices_Done:
  "SetRawInputDevices w = Done w' \<Longrightarrow>
     \<exists>ds. w' = ((fst w)\<lparr>os_raw_devices := ds\<rparr>,
                 if os_GetRegisteredRawInputDevices_count 0 (fst w) = 0 then snd w
                 else (snd w)\<lparr>old_raw_input_devices := os_raw_devices (fst w)\<rparr>)"
  by (cases w)
     (auto simp: SetRawInputDevices_def DoesRawInputDeviceHaveMouseOrKeyboardDevice_def
           os_GetRegisteredRawInputDevices_def run_steps_Cons_Done ex_os_raw_devices
           simp del: run_steps.simps(2)
           split: sum.splits option.splits if_splits
           dest!: RegisterRawInputDevicesWrapper_Done)

lemmas step_Done =
  SetOrRestoreCursor_Done SaveCurrentCursorPos_Done ShowCursor_Done HideCursor_Done
  SaveCurrentClipCursor_Done SetNewClipCursor_Done RestoreOldClipCursor_Done
  RestoreOldCursorPos_Done ClearOldCursorPos_Done RestoreRawInputDevices_Done
  SetRawInputDevices_Done

text \<open>The two transitions in the concrete environment.\<close>

lemmas example_defs =
  example_os_def example_os_on_def example_state_on_def example_state_off_def
  example_devices_def initial_state_def zero_point_def zero_rect_def

lemmas os_defs =
  os_LoadCursorW_def os_SetCursor_def os_GetCursorPos_def os_SetCursorPos_def
  os_ShowCursor_def os_GetClipCursor_def os_ClipCursor_def os_IsWindow_def
  os_GetWindowRect_def os_GetRegisteredRawInputDevices_count_def
  os_GetRegisteredRawInputDevices_def os_RegisterRawInputDevices_def register_device_def
  same_usage_def
  os_AttachThreadInput_def os_OpenThread_def os_CloseHandle_def os_GetAsyncKeyState_def
  fresh_handle_def

lemmas const_defs =
  WM_INPUT_def WM_KEYDOWN_def WM_KEYFIRST_def WM_KEYLAST_def WM_MOUSEFIRST_def
  WM_MOUSELAST_def VK_SHIFT_def VK_F9_def RIDEV_REMOVE_def RIDEV_NOLEGACY_def
  HID_USAGE_PAGE_GENERIC_def HID_USAGE_GENERIC_MOUSE_def HID_USAGE_GENERIC_KEYBOARD_def

lemmas step_defs =
  SetOrRestoreCursor_def SaveCurrentCursorPos_def ClearOldCursorPos_def
  RestoreOldCursorPos_def ShowCursor_def HideCursor_def SaveCurrentClipCursor_def
  ClipCursorWrap_def SetNewClipCursor_def RestoreOldClipCursor_def
  RegisterRawInputDevicesWrapper_def is_mouse_device_def is_keyboard_device_def
  DoesRawInputDeviceHaveMouseOrKeyboardDevice_def SetRawInputDevices_def
  RestoreRawInputDevices_def ShowCursor_loop_eq HideCursor_loop_eq

lemma example_turn_on:
  "SetGuiVisibleForInput True False (example_os, initial_state) =
     Done (example_os_on, example_state_on)"
  by (simp add: SetGuiVisibleForInput_def step_defs os_defs const_defs example_defs)

lemma example_turn_off:
  "SetGuiVisibleForInput False True (example_os_on, example_state_on) =
     Done (example_os, example_state_off)"
  by (simp add: SetGuiVisibleForInput_def step_defs os_defs const_defs example_defs)

section \<open>The clip rectangle survives a turn-on and turn-off\<close>

lemma example_busy_run:
  "run_events [Ev_GuiVisible True, Ev_OnSetCursor 8, Ev_OnSetCursorPos 1 2,
               Ev_OnShowCursor True, Ev_WindowProc 1 5 WM_KEYDOWN 0x41 0]
     (example_os_on, example_state_on) =
   (example_os_busy, example_state_busy)"
  by (simp add: OnSetCursor_def OnSetCursorPos_def OnShowCursor_def Let_def
        WindowProcCallback_def example_os_busy_def example_state_busy_def
        example_key_entry_def os_defs const_defs example_defs)

lemma example_busy_turn_off:
  "SetGuiVisibleForInput False True (example_os_busy, example_state_busy) =
     Done (example_os\<lparr>os_cursor := 8, os_cursor_pos := \<lparr>x = 1, y = 2\<rparr>,
                      os_show_count := - 3, os_handles := [(1, 1)]\<rparr>,
           example_state_off\<lparr>gui_visible := True, queue := [example_key_entry]\<rparr>)"
  by (simp add: SetGuiVisibleForInput_def step_defs os_defs const_defs example_defs
        example_os_busy_def example_state_busy_def)

text \<open>
  Claim C7.  Let \<open>SetGuiVisibleForInput (true, false)\<close> return, and let
  \<open>SetGuiVisibleForInput (false, true)\<close> return afterwards, with no clip-cursor hook
  call in between: the clip rectangle that the module has saved is at the second
  call (\<open>st1'\<close>) what it was after the first (\<open>st1\<close>).  Everything else may have
  changed in between, in the module (other hook calls, window messages, the flag) and
  in the platform (\<open>os1'\<close>).  Then the clip rectangle of the platform is again the one
  that was in effect before the first call: the turn-on saves the rectangle before it
  widens it, and the turn-off applies the saved one.
\<close>

theorem clip_rectangle_round_trip:
  assumes "SetGuiVisibleForInput True False (os, st) = Done (os1, st1)"
    and "old_clip_cursor st1' = old_clip_cursor st1"
    and "SetGuiVisibleForInput False True (os1', st1') = Done (os2, st2)"
  shows "os_clip os2 = os_clip os"
proof -
  from assms(1) have saved: "old_clip_cursor st1 = os_clip os"
    by (auto simp: SetGuiVisibleForInput_def run_steps_Cons_Done
             simp del: run_steps.simps(2) dest!: step_Done split: if_splits)
  from assms(3) have "os_clip os2 = old_clip_cursor st1'"
    by (auto simp: SetGuiVisibleForInput_def run_steps_Cons_Done
             simp del: run_steps.simps(2) dest!: step_Done split: if_splits)
  with saved assms(2) show ?thesis by simp
qed

theorem clip_rectangle_round_trip_witness:
  "SetGuiVisibleForInput True False (example_os, initial_state) =
     Done (example_os_on, example_state_on) \<and>
   run_events [Ev_GuiVisible True, Ev_OnSetCursor 8, Ev_OnSetCursorPos 1 2,
               Ev_OnShowCursor True, Ev_WindowProc 1 5 WM_KEYDOWN 0x41 0]
     (example_os_on, example_state_on) =
   (example_os_busy, example_state_busy) \<and>
   old_clip_cursor example_state_busy = old_clip_cursor example_state_on \<and>
   SetGuiVisibleForInput False True (example_os_busy, example_state_busy) =
     Done (example_os\<lparr>os_cursor := 8, os_cursor_pos := \<lparr>x = 1, y = 2\<rparr>,
                      os_show_count := - 3, os_handles := [(1, 1)]\<rparr>,
           example_state_off\<lparr>gui_visible := True, queue := [example_key_entry]\<rparr>) \<and>
   os_clip example_os_on = \<lparr>left = 0, top = 0, right = 1000, bottom = 700\<rparr> \<and>
   os_clip (example_os\<lparr>os_cursor := 8, os_cursor_pos := \<lparr>x = 1, y = 2\<rparr>,
                       os_show_count := - 3, os_handles := [(1, 1)]\<rparr>) =
     \<lparr>left = 0, top = 0, right = 800, bottom = 600\<rparr> \<and>
   os_clip example_os = \<lparr>left = 0, top = 0, right = 800, bottom = 600\<rparr>"
proof -
  have k: "old_clip_cursor example_state_busy = old_clip_cursor example_state_on"
    by (simp add: example_state_busy_def)
  show ?thesis
    using clip_rectangle_round_trip [OF example_turn_on k example_busy_turn_off]
      example_turn_on example_busy_run example_busy_turn_off k
    by (simp add: example_os_def example_os_on_def)
qed

section \<open>The get-cursor-position hook while the overlay is visible\<close>

text \<open>
  Claim C1 says that after the turn-on every later call of the get-cursor-position
  hook, while the overlay stays visible, yields the position saved at the turn-on.
  The code keeps one saved position and the set-cursor-position hook overwrites it
  while the overlay is visible, so a host that moves the cursor with \<open>SetCursorPos\<close>
  reads back its own position afterwards; and a call without an output point is not
  handled at all.  Both are shown in the concrete environment, with the visibility
  flag stored by the render module: the position saved at the turn-on is
  \<open>(100, 200)\<close>, after \<open>OnSetCursorPos 1 2\<close> the hook answers \<open>(1, 2)\<close>.
\<close>

theorem get_cursor_pos_after_set_cursor_pos:
  "SetGuiVisibleForInput True False (example_os, initial_state) =
     Done (example_os_on, example_state_on) \<and>
   example_state_visible = example_state_on\<lparr>gui_visible := True\<rparr> \<and>
   os_cursor_pos example_os = \<lparr>x = 100, y = 200\<rparr> \<and>
   OnSetCursorPos 1 2 False example_state_visible =
     (example_state_visible\<lparr>old_cursor_pos := (True, \<lparr>x = 1, y = 2\<rparr>)\<rparr>, True) \<and>
   gui_visible (example_state_visible\<lparr>old_cursor_pos := (True, \<lparr>x = 1, y = 2\<rparr>)\<rparr>) \<and>
   OnGetCursorPos (Some zero_point) False
       (example_state_visible\<lparr>old_cursor_pos := (True, \<lparr>x = 1, y = 2\<rparr>)\<rparr>) =
     (Some \<lparr>x = 1, y = 2\<rparr>, True) \<and>
   OnGetCursorPos None False example_state_visible = (None, False)"
  using example_turn_on
  by (simp add: OnSetCursorPos_def OnGetCursorPos_def example_state_visible_def
        example_defs)

text \<open>
  Claim C1, amended.  Let \<open>SetGuiVisibleForInput (true, false)\<close> return in the
  platform state \<open>os\<close>.  In every later state of the module in which the overlay is
  visible and the saved position is still the one of the transition (no
  set-cursor-position hook call and no call without a transition has replaced it), a
  call of the get-cursor-position hook that supplies an output point writes the
  cursor position of \<open>os\<close> into it and reports the call handled.  The hook does not
  look at the platform at all, so the real cursor may have moved in between.
\<close>

theorem get_cursor_pos_returns_saved_position:
  assumes "SetGuiVisibleForInput True False (os, st) = Done (os', st')"
    and "gui_visible st''"
    and "old_cursor_pos st'' = old_cursor_pos st'"
  shows "OnGetCursorPos (Some p) handled st'' = (Some (os_cursor_pos os), True)"
proof -
  from assms(1) have "old_cursor_pos st' = (True, os_cursor_pos os)"
    by (auto simp: SetGuiVisibleForInput_def run_steps_Cons_Done
             simp del: run_steps.simps(2) dest!: step_Done split: if_splits)
  with assms(2,3) show ?thesis
    by (simp add: OnGetCursorPos_def)
qed

theorem get_cursor_pos_returns_saved_position_witness:
  "SetGuiVisibleForInput True False (example_os, initial_state) =
     Done (example_os_on, example_state_on) \<and>
   gui_visible example_state_visible \<and>
   old_cursor_pos example_state_visible = old_cursor_pos example_state_on \<and>
   OnGetCursorPos (Some zero_point) False example_state_visible =
     (Some \<lparr>x = 100, y = 200\<rparr>, True)"
proof -
  have v: "gui_visible example_state_visible"
    by (simp add: example_state_visible_def)
  have k: "old_cursor_pos example_state_visible = old_cursor_pos example_state_on"
    by (simp add: example_state_visible_def)
  show ?thesis
    using get_cursor_pos_returns_saved_position [OF example_turn_on v k, of zero_point False]
      example_turn_on v k
    by (simp add: example_os_def)
qed

section \<open>The set-cursor hook\<close>

text \<open>
  Claim C10.  Every call of the set-cursor hook, visible overlay or not, stores the
  new cursor in the saved-cursor record and sets its flag, and changes nothing else.
  Only when the overlay is visible does it set \<open>handled\<close> and return the cursor that
  was recorded before; otherwise \<open>handled\<close> and the return value stay as they came.
  A turn-off that returns, from any later state in which the record is still the one
  this call wrote, leaves the platform with the cursor the host set last.
\<close>

theorem set_cursor_hook_records_cursor:
  "fst (OnSetCursor cursor (handled, retval) st) = st\<lparr>old_cursor := (True, cursor)\<rparr> \<and>
   snd (OnSetCursor cursor (handled, retval) st) =
     (if gui_visible st then (True, snd (old_cursor st)) else (handled, retval)) \<and>
   (\<forall>os st2 os' st'.
      old_cursor st2 = old_cursor (fst (OnSetCursor cursor (handled, retval) st)) \<and>
      SetGuiVisibleForInput False True (os, st2) = Done (os', st') \<longrightarrow>
      os_cursor os' = cursor)"
  by (auto simp: OnSetCursor_def SetGuiVisibleForInput_def run_steps_Cons_Done
           simp del: run_steps.simps(2) dest!: step_Done split: if_splits)

theorem set_cursor_hook_records_cursor_witness:
  "fst (OnSetCursor 8 (False, 0) example_state_visible) =
     example_state_visible\<lparr>old_cursor := (True, 8)\<rparr> \<and>
   snd (OnSetCursor 8 (False, 0) example_state_visible) = (True, 7) \<and>
   snd (OnSetCursor 8 (False, 0) example_state_on) = (False, 0) \<and>
   SetGuiVisibleForInput False True
      (example_os_on, example_state_visible\<lparr>old_cursor := (True, 8)\<rparr>) =
     Done (example_os\<lparr>os_cursor := 8\<rparr>, example_state_off\<lparr>gui_visible := True\<rparr>) \<and>
   os_cursor (example_os\<lparr>os_cursor := 8\<rparr>) = 8"
proof -
  have t: "SetGuiVisibleForInput False True
      (example_os_on, example_state_visible\<lparr>old_cursor := (True, 8)\<rparr>) =
     Done (example_os\<lparr>os_cursor := 8\<rparr>, example_state_off\<lparr>gui_visible := True\<rparr>)"
    by (simp add: SetGuiVisibleForInput_def step_defs os_defs const_defs
        example_defs example_state_visible_def)
  have o: "old_cursor (example_state_visible\<lparr>old_cursor := (True, 8)\<rparr>) =
      old_cursor (fst (OnSetCursor 8 (False, 0) example_state_visible))"
    by (simp add: OnSetCursor_def)
  show ?thesis
    using set_cursor_hook_records_cursor [of 8 False 0 example_state_visible]
      set_cursor_hook_records_cursor [of 8 False 0 example_state_on] t o
    by (simp add: example_state_visible_def example_defs)
qed

section \<open>Calls without a transition, and the restore of the cursor position\<close>

text \<open>
  Claim C8 says that a call with equal new and old visibility clears the
  saved-position flag only when the overlay is not visible.  The code clears it
  first and looks at the visibility afterwards: in the concrete environment the call
  \<open>SetGuiVisibleForInput (true, true)\<close> drops the position \<open>(100, 200)\<close> saved at the
  turn-on.
\<close>

theorem visible_no_transition_call_clears_saved_position:
  "gui_visible example_state_visible \<and>
   old_cursor_pos example_state_visible = (True, \<lparr>x = 100, y = 200\<rparr>) \<and>
   SetGuiVisibleForInput True True (example_os_on, example_state_visible) =
     Done (example_os_on, example_state_visible\<lparr>old_cursor_pos := (False, zero_point)\<rparr>)"
  by (simp add: SetGuiVisibleForInput_def step_defs os_defs const_defs
        example_defs example_state_visible_def)

text \<open>
  Claim C8, amended.  A call with equal new and old visibility that returns has
  cleared the saved-position flag and zeroed the saved position, visible or not,
  without moving the cursor of the platform; when the overlay is visible and the
  current window exists it has also set the clip rectangle to the union of the saved
  rectangle and the window's rectangle, and otherwise it has left the platform as it
  was.  A turn-off that returns has put the cursor at the saved position when the
  flag was set, and has left the cursor where it was when the flag was not set.
\<close>

theorem no_transition_call_clears_saved_position:
  "(\<forall>os' st'. SetGuiVisibleForInput visible visible (os, st) = Done (os', st') \<longrightarrow>
      st' = st\<lparr>old_cursor_pos := (False, zero_point)\<rparr> \<and>
      os_cursor_pos os' = os_cursor_pos os \<and>
      (if visible \<and> os_IsWindow (os_current_window os) os
       then \<exists>r. os_GetWindowRect (os_current_window os) os = Inr r \<and>
                os' = os\<lparr>os_clip := clip_union (old_clip_cursor st) r\<rparr>
       else os' = os)) \<and>
   (\<forall>os' st'. SetGuiVisibleForInput False True (os, st) = Done (os', st') \<longrightarrow>
      os_cursor_pos os' =
        (if fst (old_cursor_pos st) then snd (old_cursor_pos st) else os_cursor_pos os))"
proof (rule conjI; intro allI impI)
  fix os' st'
  assume "SetGuiVisibleForInput visible visible (os, st) = Done (os', st')"
  then show "st' = st\<lparr>old_cursor_pos := (False, zero_point)\<rparr> \<and>
      os_cursor_pos os' = os_cursor_pos os \<and>
      (if visible \<and> os_IsWindow (os_current_window os) os
       then \<exists>r. os_GetWindowRect (os_current_window os) os = Inr r \<and>
                os' = os\<lparr>os_clip := clip_union (old_clip_cursor st) r\<rparr>
       else os' = os)"
    by (auto simp: SetGuiVisibleForInput_def ClearOldCursorPos_def SetNewClipCursor_def
          ClipCursorWrap_def os_ClipCursor_def clip_union_def
          split: if_splits sum.splits option.splits)
next
  fix os' st'
  assume "SetGuiVisibleForInput False True (os, st) = Done (os', st')"
  then show "os_cursor_pos os' =
        (if fst (old_cursor_pos st) then snd (old_cursor_pos st) else os_cursor_pos os)"
    by (auto simp: SetGuiVisibleForInput_def run_steps_Cons_Done
           simp del: run_steps.simps(2) dest!: step_Done split: if_splits)
qed

theorem no_transition_call_clears_saved_position_witness:
  "SetGuiVisibleForInput True True
      (example_os_on\<lparr>os_cursor_pos := \<lparr>x = 4, y = 5\<rparr>\<rparr>, example_state_visible) =
     Done (example_os_on\<lparr>os_cursor_pos := \<lparr>x = 4, y = 5\<rparr>\<rparr>,
           example_state_visible\<lparr>old_cursor_pos := (False, zero_point)\<rparr>) \<and>
   os_IsWindow (os_current_window example_os_on) example_os_on \<and>
   SetGuiVisibleForInput False True
      (example_os_on\<lparr>os_cursor_pos := \<lparr>x = 4, y = 5\<rparr>\<rparr>, example_state_on) =
     Done (example_os, example_state_off) \<and>
   os_cursor_pos example_os = \<lparr>x = 100, y = 200\<rparr> \<and>
   SetGuiVisibleForInput False True
      (example_os_on\<lparr>os_cursor_pos := \<lparr>x = 4, y = 5\<rparr>\<rparr>,
       example_state_on\<lparr>old_cursor_pos := (False, zero_point)\<rparr>) =
     Done (example_os\<lparr>os_cursor_pos := \<lparr>x = 4, y = 5\<rparr>\<rparr>, example_state_off)"
proof -
  have a: "SetGuiVisibleForInput True True
      (example_os_on\<lparr>os_cursor_pos := \<lparr>x = 4, y = 5\<rparr>\<rparr>, example_state_visible) =
     Done (example_os_on\<lparr>os_cursor_pos := \<lparr>x = 4, y = 5\<rparr>\<rparr>,
           example_state_visible\<lparr>old_cursor_pos := (False, zero_point)\<rparr>)"
    by (simp add: SetGuiVisibleForInput_def step_defs os_defs const_defs
          example_defs example_state_visible_def)
  have b: "SetGuiVisibleForInput False True
      (example_os_on\<lparr>os_cursor_pos := \<lparr>x = 4, y = 5\<rparr>\<rparr>, example_state_on) =
     Done (example_os, example_state_off)"
    by (simp add: SetGuiVisibleForInput_def step_defs os_defs const_defs example_defs)
  have c: "SetGuiVisibleForInput False True
      (example_os_on\<lparr>os_cursor_pos := \<lparr>x = 4, y = 5\<rparr>\<rparr>,
       example_state_on\<lparr>old_cursor_pos := (False, zero_point)\<rparr>) =
     Done (example_os\<lparr>os_cursor_pos := \<lparr>x = 4, y = 5\<rparr>\<rparr>, example_state_off)"
    by (simp add: SetGuiVisibleForInput_def step_defs os_defs const_defs example_defs)
  show ?thesis
    using no_transition_call_clears_saved_position
        [of True "example_os_on\<lparr>os_cursor_pos := \<lparr>x = 4, y = 5\<rparr>\<rparr>" example_state_visible]
      no_transition_call_clears_saved_position
        [of True "example_os_on\<lparr>os_cursor_pos := \<lparr>x = 4, y = 5\<rparr>\<rparr>" example_state_on]
      a b c
    by (simp add: os_IsWindow_def example_os_on_def example_os_def)
qed

section \<open>The raw-input hooks while the overlay is visible\<close>

text \<open>
  Claim C6 says that, while the overlay owns input, both raw-input query hooks zero
  the caller's buffer and report \<open>(UINT)-1\<close>, handled, and that the registration hook
  reports handled with \<open>FALSE\<close>.  In the code the get-raw-input-data hook and the
  registration hook act only on pointers that are not null: a size query (no data
  buffer) and a registration without an array pass through unhandled.  The
  get-raw-input-buffer hook ignores the buffer it is given.
\<close>

theorem raw_input_query_without_buffer_passes_through:
  "gui_visible example_state_visible \<and>
   OnGetRawInputData 4 0x10000003 None (Some 3) 16 (False, 0) example_state_visible =
     (None, Some 3, False, 0) \<and>
   OnRegisterRawInputDevices None 1 12 (False, True) example_state_visible =
     ([], False, True) \<and>
   OnGetRawInputBuffer (Some [1, 2, 3]) (Some 3) 16 (False, 0) example_state_visible =
     (Some [1, 2, 3], Some 3, True, - 1)"
  by (simp add: OnGetRawInputBuffer_def OnGetRawInputData_def OnRegisterRawInputDevices_def
       example_state_visible_def)

lemma ZeroMemory_zero: "i < min n (length buf) \<Longrightarrow> ZeroMemory buf n ! i = 0"
  by (simp add: ZeroMemory_def nth_append)

lemma ZeroMemory_rest: "n \<le> i \<Longrightarrow> i < length buf \<Longrightarrow> ZeroMemory buf n ! i = buf ! i"
  by (simp add: ZeroMemory_def nth_append min_def)

lemma ZeroMemory_length: "length (ZeroMemory buf n) = length buf"
  by (simp add: ZeroMemory_def)

text \<open>
  Claim C6, amended.  While the overlay is visible: the get-raw-input-buffer hook
  reports \<open>(UINT)-1\<close> and handled; the get-raw-input-data hook, given a data buffer
  and a size, zeroes the first \<open>*size\<close> bytes of the buffer, leaves the rest and the
  size alone and reports \<open>(UINT)-1\<close> and handled, and given a null data pointer or a
  null size pointer it changes nothing and leaves the call unhandled; the
  register-raw-input-devices hook, given a device array, traces its entries and then
  reports handled with \<open>FALSE\<close>, and given a null array it traces nothing and leaves
  the call unhandled.
\<close>

theorem raw_input_hooks_while_visible:
  assumes "gui_visible st"
  shows
    "snd (snd (OnGetRawInputBuffer data sz size_header (handled, retval) st)) = (True, - 1) \<and>
     OnGetRawInputData raw_input command (Some buf) (Some n) size_header (handled, retval) st =
       (Some (ZeroMemory buf (unat n)), Some n, True, - 1) \<and>
     length (ZeroMemory buf (unat n)) = length buf \<and>
     (\<forall>i < length buf. ZeroMemory buf (unat n) ! i = (if i < unat n then 0 else buf ! i)) \<and>
     OnGetRawInputData raw_input command None sz size_header (handled, retval) st =
       (None, sz, handled, retval) \<and>
     OnGetRawInputData raw_input command data None size_header (handled, retval) st =
       (data, None, handled, retval) \<and>
     OnRegisterRawInputDevices (Some r) num_devices size_r (handled_r, retval_r) st =
       (concat (map (trace_device r) [0 ..< min num_devices (length r)]), True, False) \<and>
     OnRegisterRawInputDevices None num_devices size_r (handled_r, retval_r) st =
       ([], handled_r, retval_r)"
  using assms
  by (auto simp: OnGetRawInputBuffer_def OnGetRawInputData_def OnRegisterRawInputDevices_def
       ZeroMemory_length ZeroMemory_zero ZeroMemory_rest split: option.splits)

theorem raw_input_hooks_while_visible_witness:
  "gui_visible example_state_visible \<and>
   snd (snd (OnGetRawInputBuffer (Some [1, 2, 3]) (Some 3) 16 (False, 0)
               example_state_visible)) = (True, - 1) \<and>
   OnGetRawInputData 4 0x10000003 (Some [1, 2, 3]) (Some 2) 16 (False, 0)
       example_state_visible =
     (Some [0, 0, 3], Some 2, True, - 1) \<and>
   OnRegisterRawInputDevices (Some example_devices) 3 12 (False, True) example_state_visible =
     ([Trace_Device 0 \<lparr>usUsagePage = 1, usUsage = 2, dwFlags = 0, hwndTarget = 9\<rparr>,
       Trace_Device 1 \<lparr>usUsagePage = 1, usUsage = 4, dwFlags = 0, hwndTarget = 9\<rparr>,
       Trace_Device 2 \<lparr>usUsagePage = 1, usUsage = 6, dwFlags = 0x30, hwndTarget = 9\<rparr>,
       Trace_NoLegacy 2],
      True, False)"
proof -
  have v: "gui_visible example_state_visible"
    by (simp add: example_state_visible_def)
  have z: "ZeroMemory [1, 2, 3] (unat (2 :: 32 word)) = [0, 0, 3]"
    by (simp add: ZeroMemory_def)
  have t: "concat (map (trace_device example_devices) [0 ..< min 3 (length example_devices)]) =
     [Trace_Device 0 \<lparr>usUsagePage = 1, usUsage = 2, dwFlags = 0, hwndTarget = 9\<rparr>,
       Trace_Device 1 \<lparr>usUsagePage = 1, usUsage = 4, dwFlags = 0, hwndTarget = 9\<rparr>,
       Trace_Device 2 \<lparr>usUsagePage = 1, usUsage = 6, dwFlags = 0x30, hwndTarget = 9\<rparr>,
       Trace_NoLegacy 2]"
    by (simp add: example_devices_def trace_device_def const_defs upt_rec)
  show ?thesis
    using raw_input_hooks_while_visible
        [OF v, of "Some [1, 2, 3]" "Some 3" 16 False 0 4 "0x10000003" "[1, 2, 3]" 2
           example_devices 3 12 False True] v z t
    by simp
qed

section \<open>The cross-thread input attacher\<close>

text \<open>
  Claim C9 says that a changed target is detached from and the new one attached to.
  The code does so only when the target is another thread than the caller: a drain
  thread that is attached to thread \<open>2\<close> and meets an entry of its own (target \<open>1\<close>,
  the calling thread) keeps the attachment to thread \<open>2\<close> and its handle.
\<close>

theorem lazy_attach_own_thread_keeps_attachment:
  "os_attached example_os_attached = [(1, 2)] \<and>
   last_attached example_state_attached 1 = (2, 4) \<and>
   LazyAttachThreadInput 1 1 (example_os_attached, example_state_attached) =
     Done (example_os_attached, example_state_attached)"
  by (simp add: LazyAttachThreadInput_def example_os_attached_def example_state_attached_def)

text \<open>
  Claim C9, amended.  When the target is the thread last attached to by the caller,
  or the calling thread itself, the call attaches and detaches nothing and changes
  nothing.  When the target is neither, a call that returns has first detached the
  caller from the thread it was attached to, if there was one, and closed that
  thread's handle, if there was one, and has then attached the caller to the target,
  opened a handle to it and recorded both; and when the detach fails the call throws
  with nothing changed, so no attach is made before the detach.  The record belongs
  to the calling thread: the records of all other threads are as they were, whether
  the call returns or throws.
\<close>

theorem lazy_attach_reuse_and_reattach:
  "((t = current_tid \<or> t = fst (last_attached st current_tid)) \<longrightarrow>
      LazyAttachThreadInput current_tid t (os, st) = Done (os, st)) \<and>
   (t \<noteq> current_tid \<and> t \<noteq> fst (last_attached st current_tid) \<longrightarrow>
      (\<forall>os' st'. LazyAttachThreadInput current_tid t (os, st) = Done (os', st') \<longrightarrow>
         (let detached = fst (last_attached st current_tid) \<noteq> 0;
              closed = detached \<and> snd (last_attached st current_tid) \<noteq> 0;
              handles = (if closed
                         then filter (\<lambda>p. fst p \<noteq> snd (last_attached st current_tid))
                                (os_handles os)
                         else os_handles os)
          in os_attached os' =
               (current_tid, t) #
               (if detached
                then remove1 (current_tid, fst (last_attached st current_tid)) (os_attached os)
                else os_attached os) \<and>
             os_handles os' = (fresh_handle handles, t) # handles \<and>
             last_attached st' current_tid = (t, fresh_handle handles))) \<and>
      (\<forall>code. fst (last_attached st current_tid) \<noteq> 0 \<and>
          os_fails os (Call_AttachThreadInput current_tid (fst (last_attached st current_tid))
                         False) = Some code \<longrightarrow>
          LazyAttachThreadInput current_tid t (os, st) =
            Raised (Error ''AttachThreadInput failed.'' code) (os, st))) \<and>
   (\<forall>other. other \<noteq> current_tid \<longrightarrow>
      last_attached (snd (world_of (LazyAttachThreadInput current_tid t (os, st)))) other =
      last_attached st other)"
  apply (intro conjI allI impI)
  subgoal by (auto simp: LazyAttachThreadInput_def)
  subgoal by (auto simp: LazyAttachThreadInput_def run_steps_Cons_Done Let_def
        os_AttachThreadInput_def os_OpenThread_def os_CloseHandle_def
        simp del: run_steps.simps(2) split: if_splits sum.splits option.splits prod.splits)
  subgoal by (auto simp: LazyAttachThreadInput_def os_AttachThreadInput_def)
  subgoal by (auto simp: LazyAttachThreadInput_def Let_def
        os_AttachThreadInput_def os_OpenThread_def os_CloseHandle_def
        split: if_splits sum.splits option.splits prod.splits outcome.splits)
  done

theorem lazy_attach_reuse_and_reattach_witness:
  "LazyAttachThreadInput 1 2 (example_os_attached, example_state_attached) =
     Done (example_os_attached, example_state_attached) \<and>
   LazyAttachThreadInput 1 3 (example_os_attached, example_state_attached) =
     Done (example_os\<lparr>os_attached := [(1, 3)], os_handles := [(1, 3)]\<rparr>,
           initial_state\<lparr>last_attached := (\<lambda>_. (0, 0))(1 := (3, 1))\<rparr>) \<and>
   LazyAttachThreadInput 1 3
      (example_os_attached
         \<lparr>os_fails := (\<lambda>c. if c = Call_AttachThreadInput 1 2 False then Some 5 else None)\<rparr>,
       example_state_attached) =
     Raised (Error ''AttachThreadInput failed.'' 5)
       (example_os_attached
          \<lparr>os_fails := (\<lambda>c. if c = Call_AttachThreadInput 1 2 False then Some 5 else None)\<rparr>,
        example_state_attached) \<and>
   last_attached
     (snd (world_of (LazyAttachThreadInput 1 3 (example_os_attached, example_state_attached))))
     7 = last_attached example_state_attached 7"
proof -
  have a: "LazyAttachThreadInput 1 3 (example_os_attached, example_state_attached) =
     Done (example_os\<lparr>os_attached := [(1, 3)], os_handles := [(1, 3)]\<rparr>,
           initial_state\<lparr>last_attached := (\<lambda>_. (0, 0))(1 := (3, 1))\<rparr>)"
    by (simp add: LazyAttachThreadInput_def example_os_attached_def
          example_state_attached_def os_defs example_defs)
  show ?thesis
    using lazy_attach_reuse_and_reattach [of 2 1 example_state_attached example_os_attached]
      lazy_attach_reuse_and_reattach [of 3 1 example_state_attached example_os_attached]
      lazy_attach_reuse_and_reattach [of 3 1 example_state_attached
        "example_os_attached
           \<lparr>os_fails := (\<lambda>c. if c = Call_AttachThreadInput 1 2 False then Some 5 else None)\<rparr>"]
      a
    by (simp add: example_state_attached_def)
qed

section \<open>The raw-input device snapshot\<close>

lemma RestoreRawInputDevices_loop_devices:
  "RestoreRawInputDevices_loop devs (os, st) = Done (os', st') \<Longrightarrow>
     st' = st \<and>
     os_raw_devices os' =
       foldl (\<lambda>ds d. register_device d ds) (os_raw_devices os)
         (filter (\<lambda>d. is_mouse_device d \<or> is_keyboard_device d) devs)"
proof (induction devs arbitrary: os st)
  case Nil
  then show ?case by simp
next
  case (Cons d devs)
  show ?case
  proof (cases "is_mouse_device d \<or> is_keyboard_device d")
    case True
    with Cons.prems obtain os1 where
      r: "RegisterRawInputDevicesWrapper d (os, st) = Done (os1, st)"
      and l: "RestoreRawInputDevices_loop devs (os1, st) = Done (os', st')"
      by (auto simp: RegisterRawInputDevicesWrapper_def
            split: if_splits outcome.splits sum.splits)
    from r have "os_raw_devices os1 = register_device d (os_raw_devices os)"
      by (auto simp: RegisterRawInputDevicesWrapper_def os_RegisterRawInputDevices_def
            split: sum.splits option.splits)
    with Cons.IH[OF l] True show ?thesis by auto
  next
    case False
    with Cons.prems have "RestoreRawInputDevices_loop devs (os, st) = Done (os', st')"
      by simp
    from Cons.IH[OF this] False show ?thesis by simp
  qed
qed

text \<open>
  Claim C3 says that the snapshot is replaced at every turn-on, also when no device
  is registered, and that it is empty after a turn-off.  The code never empties the
  snapshot: after the turn-off in the concrete environment it still holds the three
  devices.  And a turn-on that finds no registered device returns before it touches
  the snapshot, so the devices of the cycle before stay in it.
\<close>

theorem raw_input_snapshot_not_cleared:
  "SetGuiVisibleForInput False True (example_os_on, example_state_on) =
     Done (example_os, example_state_off) \<and>
   old_raw_input_devices example_state_off = example_devices \<and>
   example_devices \<noteq> [] \<and>
   os_raw_devices (example_os\<lparr>os_raw_devices := []\<rparr>) = [] \<and>
   old_raw_input_devices
     (snd (world_of (SetGuiVisibleForInput True False
        (example_os\<lparr>os_raw_devices := []\<rparr>, example_state_off)))) = example_devices"
  using example_turn_off
  by (simp add: SetGuiVisibleForInput_def step_defs os_defs const_defs example_defs)

text \<open>
  Claim C3, amended.  A turn-on that returns and has found at least one registered
  raw-input device has replaced the snapshot by the list of the devices registered
  at that moment.  A turn-off that returns has registered again, in the order of the
  snapshot, every mouse and keyboard device of the snapshot, and has kept the
  snapshot as it was.
\<close>

theorem raw_input_snapshot_replaced_and_kept:
  "(\<forall>os' st'. SetGuiVisibleForInput True False (os, st) = Done (os', st') \<and>
        os_GetRegisteredRawInputDevices_count 0 os \<noteq> 0 \<longrightarrow>
      old_raw_input_devices st' = os_raw_devices os) \<and>
   (\<forall>os' st'. SetGuiVisibleForInput False True (os, st) = Done (os', st') \<longrightarrow>
      old_raw_input_devices st' = old_raw_input_devices st \<and>
      os_raw_devices os' =
        foldl (\<lambda>ds d. register_device d ds) (os_raw_devices os)
          (filter (\<lambda>d. is_mouse_device d \<or> is_keyboard_device d)
             (old_raw_input_devices st)))"
proof (rule conjI; intro allI impI)
  fix os' st'
  assume "SetGuiVisibleForInput True False (os, st) = Done (os', st') \<and>
        os_GetRegisteredRawInputDevices_count 0 os \<noteq> 0"
  then show "old_raw_input_devices st' = os_raw_devices os"
    by (auto simp: SetGuiVisibleForInput_def run_steps_Cons_Done
           os_GetRegisteredRawInputDevices_count_def
           simp del: run_steps.simps(2) dest!: step_Done split: if_splits option.splits)
next
  fix os' st'
  assume a: "SetGuiVisibleForInput False True (os, st) = Done (os', st')"
  then obtain w4 where
    b: "run_steps [SetOrRestoreCursor False, RestoreOldCursorPos, HideCursor,
                   RestoreOldClipCursor] (os, st) = Done w4"
    and c: "RestoreRawInputDevices w4 = Done (os', st')"
    by (auto simp: SetGuiVisibleForInput_def run_steps_Cons_Done simp del: run_steps.simps(2))
  from b have d: "os_raw_devices (fst w4) = os_raw_devices os \<and>
      old_raw_input_devices (snd w4) = old_raw_input_devices st"
    by (auto simp: run_steps_Cons_Done simp del: run_steps.simps(2)
          dest!: step_Done split: if_splits)
  from c have "RestoreRawInputDevices_loop (old_raw_input_devices (snd w4)) (fst w4, snd w4) =
      Done (os', st')"
    by (simp add: RestoreRawInputDevices_def)
  from RestoreRawInputDevices_loop_devices[OF this] d
  show "old_raw_input_devices st' = old_raw_input_devices st \<and>
      os_raw_devices os' =
        foldl (\<lambda>ds d. register_device d ds) (os_raw_devices os)
          (filter (\<lambda>d. is_mouse_device d \<or> is_keyboard_device d)
             (old_raw_input_devices st))"
    by simp
qed

theorem raw_input_snapshot_replaced_and_kept_witness:
  "SetGuiVisibleForInput True False
      (example_os, initial_state\<lparr>old_raw_input_devices := [hd example_devices]\<rparr>) =
     Done (example_os_on, example_state_on) \<and>
   os_GetRegisteredRawInputDevices_count 0 example_os = 3 \<and>
   old_raw_input_devices example_state_on = os_raw_devices example_os \<and>
   SetGuiVisibleForInput False True (example_os_on, example_state_on) =
     Done (example_os, example_state_off) \<and>
   old_raw_input_devices example_state_off = old_raw_input_devices example_state_on \<and>
   os_raw_devices example_os = example_devices"
proof -
  have a: "SetGuiVisibleForInput True False
      (example_os, initial_state\<lparr>old_raw_input_devices := [hd example_devices]\<rparr>) =
     Done (example_os_on, example_state_on)"
    by (simp add: SetGuiVisibleForInput_def step_defs os_defs const_defs example_defs)
  have n: "os_GetRegisteredRawInputDevices_count 0 example_os = 3"
    by (simp add: os_defs example_defs)
  have d: "os_raw_devices example_os = example_devices"
    by (simp add: example_os_def)
  show ?thesis
    using raw_input_snapshot_replaced_and_kept
        [of example_os "initial_state\<lparr>old_raw_input_devices := [hd example_devices]\<rparr>"]
      raw_input_snapshot_replaced_and_kept [of example_os_on example_state_on]
      a n d example_turn_off
    by simp
qed

section \<open>The drain of the input queue\<close>

lemma Run_eq:
  "Run callbacks hwnd msg wparam lparam (os, st) =
     (os\<lparr>delivered := delivered os @ map (\<lambda>s. (fst s, hwnd, msg, wparam, lparam)) callbacks\<rparr>,
      st\<lparr>queue := queue st @ concat (map (\<lambda>s. snd s hwnd msg wparam lparam) callbacks)\<rparr>)"
  by (induction callbacks arbitrary: os st) auto

lemma LazyAttachThreadInput_keeps:
  "queue (snd (world_of (LazyAttachThreadInput current_tid t w))) = queue (snd w) \<and>
   delivered (fst (world_of (LazyAttachThreadInput current_tid t w))) = delivered (fst w) \<and>
   show_cursor_count (snd (world_of (LazyAttachThreadInput current_tid t w))) =
     show_cursor_count (snd w) \<and>
   gui_visible (snd (world_of (LazyAttachThreadInput current_tid t w))) = gui_visible (snd w)"
  by (cases w)
     (auto simp: LazyAttachThreadInput_def Let_def
        os_AttachThreadInput_def os_OpenThread_def os_CloseHandle_def
        split: if_splits sum.splits option.splits prod.splits outcome.splits)

lemma LazyAttachThreadInput_no_failure:
  assumes "\<forall>c. os_fails os c = None"
  shows "\<exists>os' st'. LazyAttachThreadInput current_tid t (os, st) = Done (os', st') \<and>
           (\<forall>c. os_fails os' c = None) \<and> queue st' = queue st \<and> delivered os' = delivered os"
  using assms
  by (auto simp: LazyAttachThreadInput_def Let_def
        os_AttachThreadInput_def os_OpenThread_def os_CloseHandle_def)

text \<open>One round of the loop: the front entry is broadcast and removed.\<close>

lemma drain_round:
  assumes "queue st = msg # rest"
    and "LazyAttachThreadInput current_tid (m_tid msg) (os, st) = Done w1"
  shows "queue (snd (queue_pop (Run callbacks (m_hwnd msg) (m_msg msg) (m_wparam msg)
                                  (m_lparam msg) w1))) = rest @ pushed_by callbacks msg \<and>
         delivered (fst (queue_pop (Run callbacks (m_hwnd msg) (m_msg msg) (m_wparam msg)
                                  (m_lparam msg) w1))) = delivered os @ deliveries callbacks msg"
proof -
  from LazyAttachThreadInput_keeps[of current_tid "m_tid msg" "(os, st)"] assms
  have "queue (snd w1) = msg # rest" "delivered (fst w1) = delivered os"
    by simp_all
  then show ?thesis
    by (cases w1) (simp add: Run_eq queue_pop_def os_CloseHandle_def pushed_by_def deliveries_def)
qed

text \<open>
  Whatever way the drain ends, the entries it has processed, followed by the entries
  still in the queue, are the entries that were in the queue followed by the entries
  pushed while the processed ones were broadcast; and the subscribers have received
  the processed entries in that order.
\<close>

lemma drain_trace:
  "HandleInputQueue fuel callbacks current_tid (os, st) = Some r \<Longrightarrow>
     \<exists>es. es @ queue (snd (world_of r)) = queue st @ concat (map (pushed_by callbacks) es) \<and>
          delivered (fst (world_of r)) = delivered os @ concat (map (deliveries callbacks) es) \<and>
          ((\<exists>w. r = Done w) \<longrightarrow> queue (snd (world_of r)) = [])"
proof (induction fuel arbitrary: os st)
  case 0
  then have "queue st = []" "r = Done (os, st)"
    by (auto simp: HandleInputQueue.simps split: list.splits)
  then show ?case by (intro exI[of _ "[]"]) simp
next
  case (Suc fuel)
  show ?case
  proof (cases "queue st")
    case Nil
    with Suc.prems have "r = Done (os, st)"
      by (simp add: HandleInputQueue.simps)
    with Nil show ?thesis by (intro exI[of _ "[]"]) simp
  next
    case (Cons msg rest)
    show ?thesis
    proof (cases "LazyAttachThreadInput current_tid (m_tid msg) (os, st)")
      case (Raised e w')
      with Cons Suc.prems have r: "r = Raised e w'"
        by (simp add: HandleInputQueue.simps)
      from LazyAttachThreadInput_keeps[of current_tid "m_tid msg" "(os, st)"] Raised
      have "queue (snd w') = queue st" "delivered (fst w') = delivered os" by simp_all
      with r show ?thesis by (intro exI[of _ "[]"]) simp
    next
      case (Done w1)
      let ?w2 = "queue_pop (Run callbacks (m_hwnd msg) (m_msg msg) (m_wparam msg)
                   (m_lparam msg) w1)"
      from Cons Done Suc.prems
      have "HandleInputQueue fuel callbacks current_tid (fst ?w2, snd ?w2) = Some r"
        by (simp add: HandleInputQueue.simps)
      from Suc.IH[OF this] obtain es where
        es: "es @ queue (snd (world_of r)) =
               queue (snd ?w2) @ concat (map (pushed_by callbacks) es)"
          "delivered (fst (world_of r)) =
             delivered (fst ?w2) @ concat (map (deliveries callbacks) es)"
          "(\<exists>w. r = Done w) \<longrightarrow> queue (snd (world_of r)) = []"
        by blast
      from drain_round[OF Cons Done, of callbacks] es
      show ?thesis
        by (intro exI[of _ "msg # es"]) (simp add: Cons)
    qed
  qed
qed

text \<open>
  The rounds lose no entry and make none up: the entries taken and the entries left
  are the entries that were there and the entries pushed in the rounds.
\<close>

lemma fifo_rounds_entries:
  "fst (fifo_rounds k callbacks q) @ snd (fifo_rounds k callbacks q) =
     q @ concat (map (pushed_by callbacks) (fst (fifo_rounds k callbacks q)))"
proof (induction k arbitrary: q)
  case 0
  then show ?case by simp
next
  case (Suc k)
  show ?case
  proof (cases q)
    case Nil
    then show ?thesis by simp
  next
    case (Cons e q')
    with Suc.IH[of "q' @ pushed_by callbacks e"] show ?thesis by simp
  qed
qed

text \<open>A drain that returns has made the rounds that its fuel allows, and has emptied the queue.\<close>

lemma drain_Done:
  "HandleInputQueue fuel callbacks current_tid (os, st) = Some (Done (os', st')) \<Longrightarrow>
     queue st' = [] \<and>
     snd (fifo_rounds fuel callbacks (queue st)) = [] \<and>
     delivered os' =
       delivered os @ concat (map (deliveries callbacks) (fst (fifo_rounds fuel callbacks (queue st))))"
proof (induction fuel arbitrary: os st)
  case 0
  then show ?case
    by (auto simp: HandleInputQueue.simps split: list.splits)
next
  case (Suc fuel)
  show ?case
  proof (cases "queue st")
    case Nil
    with Suc.prems show ?thesis by (auto simp: HandleInputQueue.simps)
  next
    case (Cons msg rest)
    show ?thesis
    proof (cases "LazyAttachThreadInput current_tid (m_tid msg) (os, st)")
      case (Raised e w')
      with Cons Suc.prems show ?thesis by (simp add: HandleInputQueue.simps)
    next
      case (Done w1)
      let ?w2 = "queue_pop (Run callbacks (m_hwnd msg) (m_msg msg) (m_wparam msg)
                   (m_lparam msg) w1)"
      from Cons Done Suc.prems
      have "HandleInputQueue fuel callbacks current_tid (fst ?w2, snd ?w2) =
              Some (Done (os', st'))"
        by (simp add: HandleInputQueue.simps)
      from Suc.IH[OF this] drain_round[OF Cons Done, of callbacks] Cons
      show ?thesis by simp
    qed
  qed
qed

text \<open>
  A drain that throws has made some rounds, fewer than its fuel, and has left the
  queue as it was after them, with the entry at the front whose thread it could not
  attach to.
\<close>

lemma drain_Raised:
  "HandleInputQueue fuel callbacks current_tid (os, st) = Some (Raised e (os', st')) \<Longrightarrow>
     \<exists>k < fuel.
       queue st' = snd (fifo_rounds k callbacks (queue st)) \<and> queue st' \<noteq> [] \<and>
       delivered os' =
         delivered os @ concat (map (deliveries callbacks) (fst (fifo_rounds k callbacks (queue st))))"
proof (induction fuel arbitrary: os st)
  case 0
  then show ?case
    by (auto simp: HandleInputQueue.simps split: list.splits)
next
  case (Suc fuel)
  show ?case
  proof (cases "queue st")
    case Nil
    with Suc.prems show ?thesis by (auto simp: HandleInputQueue.simps)
  next
    case (Cons msg rest)
    show ?thesis
    proof (cases "LazyAttachThreadInput current_tid (m_tid msg) (os, st)")
      case (Raised e1 w')
      with Cons Suc.prems have r: "w' = (os', st')"
        by (simp add: HandleInputQueue.simps)
      from LazyAttachThreadInput_keeps[of current_tid "m_tid msg" "(os, st)"] Raised r
      have "queue st' = queue st" "delivered os' = delivered os" by simp_all
      with Cons show ?thesis by (intro exI[of _ 0]) simp
    next
      case (Done w1)
      let ?w2 = "queue_pop (Run callbacks (m_hwnd msg) (m_msg msg) (m_wparam msg)
                   (m_lparam msg) w1)"
      from Cons Done Suc.prems
      have "HandleInputQueue fuel callbacks current_tid (fst ?w2, snd ?w2) =
              Some (Raised e (os', st'))"
        by (simp add: HandleInputQueue.simps)
      from Suc.IH[OF this] obtain k where
        k: "k < fuel"
          "queue st' = snd (fifo_rounds k callbacks (queue (snd ?w2)))" "queue st' \<noteq> []"
          "delivered os' = delivered (fst ?w2) @
             concat (map (deliveries callbacks) (fst (fifo_rounds k callbacks (queue (snd ?w2)))))"
        by blast
      with drain_round[OF Cons Done, of callbacks] Cons
      show ?thesis by (intro exI[of _ "Suc k"]) simp
    qed
  qed
qed

text \<open>
  The drain returns or throws as soon as its fuel covers the rounds that empty the
  queue, whatever the subscribers push in them.
\<close>

lemma drain_returns:
  "snd (fifo_rounds fuel callbacks (queue st)) = [] \<Longrightarrow>
     \<exists>r. HandleInputQueue fuel callbacks current_tid (os, st) = Some r"
proof (induction fuel arbitrary: os st)
  case 0
  then show ?case by (simp add: HandleInputQueue.simps)
next
  case (Suc fuel)
  show ?case
  proof (cases "queue st")
    case Nil
    then show ?thesis by (simp add: HandleInputQueue.simps)
  next
    case (Cons msg rest)
    show ?thesis
    proof (cases "LazyAttachThreadInput current_tid (m_tid msg) (os, st)")
      case (Raised e w')
      with Cons show ?thesis by (simp add: HandleInputQueue.simps)
    next
      case (Done w1)
      let ?w2 = "queue_pop (Run callbacks (m_hwnd msg) (m_msg msg) (m_wparam msg)
                   (m_lparam msg) w1)"
      from drain_round[OF Cons Done, of callbacks] Suc.prems Cons
      have "snd (fifo_rounds fuel callbacks (queue (snd ?w2))) = []" by simp
      from Suc.IH[OF this, of "fst ?w2"] Cons Done show ?thesis
        by (simp add: HandleInputQueue.simps)
    qed
  qed
qed

text \<open>And it returns, when no call of the platform fails.\<close>

lemma drain_returns_Done:
  assumes "snd (fifo_rounds fuel callbacks (queue st)) = []"
    and "\<forall>c. os_fails os c = None"
  shows "\<exists>os' st'. HandleInputQueue fuel callbacks current_tid (os, st) = Some (Done (os', st'))"
  using assms
proof (induction fuel arbitrary: os st)
  case 0
  then show ?case by (simp add: HandleInputQueue.simps)
next
  case (Suc fuel)
  show ?case
  proof (cases "queue st")
    case Nil
    then show ?thesis by (simp add: HandleInputQueue.simps)
  next
    case (Cons msg rest)
    from LazyAttachThreadInput_no_failure[OF Suc.prems(2), of current_tid "m_tid msg" st]
    obtain os1 st1 where
      a: "LazyAttachThreadInput current_tid (m_tid msg) (os, st) = Done (os1, st1)"
      and f: "\<forall>c. os_fails os1 c = None" by blast
    let ?w2 = "queue_pop (Run callbacks (m_hwnd msg) (m_msg msg) (m_wparam msg) (m_lparam msg)
                 (os1, st1))"
    from drain_round[OF Cons a, of callbacks] Suc.prems(1) Cons
    have q: "snd (fifo_rounds fuel callbacks (queue (snd ?w2))) = []" by simp
    from a Cons have f2: "\<forall>c. os_fails (fst ?w2) c = None"
      using f LazyAttachThreadInput_keeps[of current_tid "m_tid msg" "(os, st)"]
      by (simp add: Run_eq queue_pop_def os_CloseHandle_def)
    from Suc.IH[OF q f2] a Cons show ?thesis
      by (simp add: HandleInputQueue.simps)
  qed
qed

text \<open>
  Claim C2.  The drain makes the rounds of \<open>fifo_rounds\<close>: it takes the entries in
  arrival order, calls every subscriber, in registration order, with the window, the
  message and the two parameters of the entry taken, removes that entry, and goes on
  while the queue is not empty, so that the entries pushed during the drain are
  taken in the same call, behind those that waited.
  \<^item> A drain that returns has emptied the queue, and the subscribers have received
    exactly the entries of the rounds, each once, in that order.
  \<^item> A drain that throws (the attach to an entry's thread failed) has broadcast the
    entries of the rounds before, and the queue holds all the others, the failing
    one first.
  \<^item> The drain ends whenever the rounds empty the queue, also when subscribers push:
    with the fuel of those rounds it returns or throws, and it returns when no call
    of the platform fails.
  \<^item> In the rounds no entry is lost and none is there twice: the entries taken and
    the entries left are the entries queued at the call and the entries pushed.
\<close>

theorem drain_is_fifo_and_complete:
  "(\<forall>os' st'. HandleInputQueue fuel callbacks current_tid (os, st) = Some (Done (os', st')) \<longrightarrow>
      queue st' = [] \<and>
      snd (fifo_rounds fuel callbacks (queue st)) = [] \<and>
      delivered os' =
        delivered os @
        concat (map (deliveries callbacks) (fst (fifo_rounds fuel callbacks (queue st))))) \<and>
   (\<forall>e os' st'. HandleInputQueue fuel callbacks current_tid (os, st) =
        Some (Raised e (os', st')) \<longrightarrow>
      (\<exists>k < fuel.
         queue st' = snd (fifo_rounds k callbacks (queue st)) \<and> queue st' \<noteq> [] \<and>
         delivered os' =
           delivered os @
           concat (map (deliveries callbacks) (fst (fifo_rounds k callbacks (queue st)))))) \<and>
   (snd (fifo_rounds fuel callbacks (queue st)) = [] \<longrightarrow>
      (\<exists>r. HandleInputQueue fuel callbacks current_tid (os, st) = Some r) \<and>
      ((\<forall>c. os_fails os c = None) \<longrightarrow>
         (\<exists>os' st'. HandleInputQueue fuel callbacks current_tid (os, st) =
            Some (Done (os', st'))))) \<and>
   (\<forall>k. fst (fifo_rounds k callbacks (queue st)) @ snd (fifo_rounds k callbacks (queue st)) =
         queue st @ concat (map (pushed_by callbacks) (fst (fifo_rounds k callbacks (queue st)))))"
proof (intro conjI allI impI)
  fix os' st'
  assume "HandleInputQueue fuel callbacks current_tid (os, st) = Some (Done (os', st'))"
  from drain_Done [OF this]
  show "queue st' = []"
    and "snd (fifo_rounds fuel callbacks (queue st)) = []"
    and "delivered os' =
        delivered os @
        concat (map (deliveries callbacks) (fst (fifo_rounds fuel callbacks (queue st))))"
    by simp_all
next
  fix e os' st'
  assume "HandleInputQueue fuel callbacks current_tid (os, st) = Some (Raised e (os', st'))"
  then show "\<exists>k < fuel.
         queue st' = snd (fifo_rounds k callbacks (queue st)) \<and> queue st' \<noteq> [] \<and>
         delivered os' =
           delivered os @
           concat (map (deliveries callbacks) (fst (fifo_rounds k callbacks (queue st))))"
    by (rule drain_Raised)
next
  assume "snd (fifo_rounds fuel callbacks (queue st)) = []"
  then show "\<exists>r. HandleInputQueue fuel callbacks current_tid (os, st) = Some r"
    by (rule drain_returns)
next
  assume "snd (fifo_rounds fuel callbacks (queue st)) = []" and "\<forall>c. os_fails os c = None"
  then show "\<exists>os' st'. HandleInputQueue fuel callbacks current_tid (os, st) =
            Some (Done (os', st'))"
    by (rule drain_returns_Done)
next
  fix k
  show "fst (fifo_rounds k callbacks (queue st)) @ snd (fifo_rounds k callbacks (queue st)) =
         queue st @ concat (map (pushed_by callbacks) (fst (fifo_rounds k callbacks (queue st))))"
    by (rule fifo_rounds_entries)
qed

lemma example_drain:
  "HandleInputQueue 3 example_subscribers 1 (example_os_queued, example_state_queued) =
     Some (Done
       (example_os
          \<lparr>os_attached := [(1, 2)], os_handles := [(3, 2)],
           delivered := [(10, 5, 1, 0, 0), (11, 5, 1, 0, 0), (10, 5, 2, 0, 0),
                         (11, 5, 2, 0, 0), (10, 5, 3, 0, 0), (11, 5, 3, 0, 0)]\<rparr>,
        initial_state\<lparr>last_attached := (\<lambda>_. (0, 0))(1 := (2, 3))\<rparr>))"
  by (simp add: HandleInputQueue.simps numeral_3_eq_3 LazyAttachThreadInput_def queue_pop_def
        example_subscribers_def example_queue_def example_os_queued_def
        example_state_queued_def os_defs example_defs)

lemma example_rounds:
  "fifo_rounds 3 example_subscribers (queue example_state_queued) =
     (example_queue @
        [\<lparr>m_hwnd = 5, m_msg = 3, m_wparam = 0, m_lparam = 0, m_tid = 1, m_thread = 0\<rparr>],
      [])"
  by (simp add: numeral_3_eq_3 pushed_by_def example_subscribers_def example_queue_def
        example_state_queued_def)

lemma example_one_round:
  "fifo_rounds 1 example_subscribers (queue example_state_queued) =
     ([\<lparr>m_hwnd = 5, m_msg = 1, m_wparam = 0, m_lparam = 0, m_tid = 2, m_thread = 1\<rparr>],
      [\<lparr>m_hwnd = 5, m_msg = 2, m_wparam = 0, m_lparam = 0, m_tid = 1, m_thread = 2\<rparr>,
       \<lparr>m_hwnd = 5, m_msg = 3, m_wparam = 0, m_lparam = 0, m_tid = 1, m_thread = 0\<rparr>])"
  by (simp add: pushed_by_def example_subscribers_def example_queue_def
        example_state_queued_def)

text \<open>
  The same queue drained by thread \<open>2\<close>, on a platform that refuses to attach it to
  thread \<open>1\<close>: the first entry is its own, the second stops the drain.
\<close>

lemma example_drain_throws:
  "HandleInputQueue 3 example_subscribers 2
      (example_os_queued
         \<lparr>os_fails := (\<lambda>c. if c = Call_AttachThreadInput 2 1 True then Some 5 else None)\<rparr>,
       example_state_queued) =
     Some (Raised (Error ''AttachThreadInput failed.'' 5)
       (example_os
          \<lparr>os_handles := [(2, 1)],
           os_fails := (\<lambda>c. if c = Call_AttachThreadInput 2 1 True then Some 5 else None),
           delivered := [(10, 5, 1, 0, 0), (11, 5, 1, 0, 0)]\<rparr>,
        initial_state
          \<lparr>queue := [\<lparr>m_hwnd = 5, m_msg = 2, m_wparam = 0, m_lparam = 0, m_tid = 1,
                       m_thread = 2\<rparr>,
                     \<lparr>m_hwnd = 5, m_msg = 3, m_wparam = 0, m_lparam = 0, m_tid = 1,
                       m_thread = 0\<rparr>]\<rparr>))"
  by (simp add: HandleInputQueue.simps numeral_3_eq_3 LazyAttachThreadInput_def queue_pop_def
        example_subscribers_def example_queue_def example_os_queued_def
        example_state_queued_def os_defs example_defs)

theorem drain_is_fifo_and_complete_witness:
  "fifo_rounds 3 example_subscribers (queue example_state_queued) =
     (example_queue @
        [\<lparr>m_hwnd = 5, m_msg = 3, m_wparam = 0, m_lparam = 0, m_tid = 1, m_thread = 0\<rparr>],
      []) \<and>
   (\<exists>os' st'.
      HandleInputQueue 3 example_subscribers 1 (example_os_queued, example_state_queued) =
        Some (Done (os', st')) \<and>
      queue st' = [] \<and>
      delivered os' = [(10, 5, 1, 0, 0), (11, 5, 1, 0, 0), (10, 5, 2, 0, 0),
                       (11, 5, 2, 0, 0), (10, 5, 3, 0, 0), (11, 5, 3, 0, 0)]) \<and>
   HandleInputQueue 3 example_subscribers 2
      (example_os_queued
         \<lparr>os_fails := (\<lambda>c. if c = Call_AttachThreadInput 2 1 True then Some 5 else None)\<rparr>,
       example_state_queued) =
     Some (Raised (Error ''AttachThreadInput failed.'' 5)
       (example_os
          \<lparr>os_handles := [(2, 1)],
           os_fails := (\<lambda>c. if c = Call_AttachThreadInput 2 1 True then Some 5 else None),
           delivered := [(10, 5, 1, 0, 0), (11, 5, 1, 0, 0)]\<rparr>,
        initial_state
          \<lparr>queue := [\<lparr>m_hwnd = 5, m_msg = 2, m_wparam = 0, m_lparam = 0, m_tid = 1,
                       m_thread = 2\<rparr>,
                     \<lparr>m_hwnd = 5, m_msg = 3, m_wparam = 0, m_lparam = 0, m_tid = 1,
                       m_thread = 0\<rparr>]\<rparr>)) \<and>
   fifo_rounds 1 example_subscribers (queue example_state_queued) =
     ([\<lparr>m_hwnd = 5, m_msg = 1, m_wparam = 0, m_lparam = 0, m_tid = 2, m_thread = 1\<rparr>],
      [\<lparr>m_hwnd = 5, m_msg = 2, m_wparam = 0, m_lparam = 0, m_tid = 1, m_thread = 2\<rparr>,
       \<lparr>m_hwnd = 5, m_msg = 3, m_wparam = 0, m_lparam = 0, m_tid = 1, m_thread = 0\<rparr>])"
proof -
  note t = drain_is_fifo_and_complete
             [of 3 example_subscribers 1 example_os_queued example_state_queued]
  have nf: "\<forall>c. os_fails example_os_queued c = None"
    by (simp add: example_os_queued_def example_os_def)
  have d0: "delivered example_os_queued = []"
    by (simp add: example_os_queued_def example_os_def)
  have e: "snd (fifo_rounds 3 example_subscribers (queue example_state_queued)) = []"
    by (simp add: example_rounds)
  from t e nf obtain os' st' where
    r: "HandleInputQueue 3 example_subscribers 1 (example_os_queued, example_state_queued) =
          Some (Done (os', st'))"
    by blast
  from t r have "queue st' = [] \<and>
      delivered os' =
        delivered example_os_queued @
        concat (map (deliveries example_subscribers)
          (fst (fifo_rounds 3 example_subscribers (queue example_state_queued))))"
    by blast
  then have "queue st' = [] \<and>
      delivered os' =
        concat (map (deliveries example_subscribers)
          (example_queue @
            [\<lparr>m_hwnd = 5, m_msg = 3, m_wparam = 0, m_lparam = 0, m_tid = 1, m_thread = 0\<rparr>]))"
    by (simp only: example_rounds fst_conv d0 append_Nil)
  then have dl: "queue st' = [] \<and>
      delivered os' = [(10, 5, 1, 0, 0), (11, 5, 1, 0, 0), (10, 5, 2, 0, 0),
                       (11, 5, 2, 0, 0), (10, 5, 3, 0, 0), (11, 5, 3, 0, 0)]"
    by (simp add: deliveries_def example_subscribers_def example_queue_def)
  from r dl have dn: "\<exists>os' st'.
      HandleInputQueue 3 example_subscribers 1 (example_os_queued, example_state_queued) =
        Some (Done (os', st')) \<and>
      queue st' = [] \<and>
      delivered os' = [(10, 5, 1, 0, 0), (11, 5, 1, 0, 0), (10, 5, 2, 0, 0),
                       (11, 5, 2, 0, 0), (10, 5, 3, 0, 0), (11, 5, 3, 0, 0)]"
    by blast
  from example_rounds dn example_drain_throws example_one_round
  show ?thesis by (intro conjI)
qed

section \<open>The hotkey and the pending entries\<close>

lemma SetGuiVisibleForInput_Done_keeps:
  "SetGuiVisibleForInput visible old_visible (os, st) = Done (os', st') \<Longrightarrow>
     queue st' = queue st \<and> gui_visible st' = gui_visible st \<and> os_handles os' = os_handles os"
  by (auto simp: SetGuiVisibleForInput_def run_steps_Cons_Done
           simp del: run_steps.simps(2) dest!: step_Done split: if_splits)

text \<open>
  Claim C5.  Let the window-procedure hook return.  Then it has appended the entry
  for the message to the queue, whatever the message is and whether it ends up
  blocked or not, and has removed nothing from the queue.  If the message is the
  hotkey (\<open>WM_KEYDOWN\<close> with bit 30 of \<open>lparam\<close> clear, \<open>VK_F9\<close>, and Shift down), the
  hook has set \<open>handled\<close> and has inverted the visibility flag, whether the overlay
  was visible before or not: the hotkey is tested before the block-all-input policy.
  And a later drain of that queue that returns has broadcast every entry that was
  pending when the hook was called, ahead of everything else.
\<close>

theorem hotkey_toggles_and_pending_entries_stay:
  assumes "WindowProcCallback current_tid hwnd msg wparam lparam handled (os, st) =
             Done (handled', (os', st'))"
  shows "queue st' = queue st @
           [\<lparr>m_hwnd = hwnd, m_msg = msg, m_wparam = wparam, m_lparam = lparam,
             m_tid = current_tid, m_thread = fresh_handle (os_handles os)\<rparr>] \<and>
         (msg = WM_KEYDOWN \<and> drop_bit 30 lparam AND 1 = 0 \<and> wparam = VK_F9 \<and>
          os_GetAsyncKeyState VK_SHIFT os AND 0x8000 \<noteq> 0 \<longrightarrow>
            handled' \<and> gui_visible st' = (\<not> gui_visible st)) \<and>
         (\<forall>fuel callbacks tid2 os2 os3 st3.
            HandleInputQueue fuel callbacks tid2 (os2, st') = Some (Done (os3, st3)) \<longrightarrow>
            (\<exists>es. delivered os3 =
                    delivered os2 @ concat (map (deliveries callbacks) (queue st @ es))))"
proof -
  let ?e = "\<lparr>m_hwnd = hwnd, m_msg = msg, m_wparam = wparam, m_lparam = lparam,
             m_tid = current_tid, m_thread = fresh_handle (os_handles os)\<rparr>"
  have q: "queue st' = queue st @ [?e]"
    using assms
    by (auto simp: WindowProcCallback_def ToggleGuiVisible_def SetGuiVisible_def Let_def
          os_OpenThread_def
          split: sum.splits option.splits if_splits outcome.splits prod.splits
          dest!: SetGuiVisibleForInput_Done_keeps)
  have t: "msg = WM_KEYDOWN \<and> drop_bit 30 lparam AND 1 = 0 \<and> wparam = VK_F9 \<and>
          os_GetAsyncKeyState VK_SHIFT os AND 0x8000 \<noteq> 0 \<longrightarrow>
            handled' \<and> gui_visible st' = (\<not> gui_visible st)"
    using assms
    by (auto simp: WindowProcCallback_def ToggleGuiVisible_def SetGuiVisible_def Let_def
          os_OpenThread_def os_GetAsyncKeyState_def
          split: sum.splits option.splits if_splits outcome.splits prod.splits
          dest!: SetGuiVisibleForInput_Done_keeps)
  have d: "\<exists>es. delivered os3 =
                  delivered os2 @ concat (map (deliveries callbacks) (queue st @ es))"
    if "HandleInputQueue fuel callbacks tid2 (os2, st') = Some (Done (os3, st3))"
    for fuel callbacks tid2 os2 os3 st3
  proof -
    from drain_trace[OF that] obtain es where
      es: "es = queue st' @ concat (map (pushed_by callbacks) es)"
      "delivered os3 = delivered os2 @ concat (map (deliveries callbacks) es)"
      by auto
    from es(1) q have "es = queue st @ (?e # concat (map (pushed_by callbacks) es))" by simp
    with es(2) show ?thesis by metis
  qed
  from q t d show ?thesis by blast
qed

lemma example_blocked_key:
  "WindowProcCallback 1 5 WM_KEYDOWN 0x41 0 False (example_os_on, example_state_visible) =
     Done (True, (example_os_on\<lparr>os_handles := [(1, 1)]\<rparr>,
                  example_state_visible\<lparr>queue := [example_key_entry]\<rparr>))"
  by (simp add: WindowProcCallback_def example_key_entry_def example_state_visible_def
        os_defs const_defs example_defs)

lemma example_hotkey:
  "WindowProcCallback 1 5 WM_KEYDOWN VK_F9 0 False
      (example_os_on\<lparr>os_handles := [(1, 1)]\<rparr>,
       example_state_visible\<lparr>queue := [example_key_entry]\<rparr>) =
     Done (True, (example_os\<lparr>os_handles := [(2, 1), (1, 1)]\<rparr>,
                  example_state_off\<lparr>queue := [example_key_entry, example_hotkey_entry]\<rparr>))"
  by (simp add: WindowProcCallback_def ToggleGuiVisible_def SetGuiVisible_def
        SetGuiVisibleForInput_def step_defs example_key_entry_def example_hotkey_entry_def
        example_state_visible_def os_defs const_defs example_defs)

lemma example_drain_after_hotkey:
  "HandleInputQueue 2 example_subscribers 1
      (example_os\<lparr>os_handles := [(2, 1), (1, 1)]\<rparr>,
       example_state_off\<lparr>queue := [example_key_entry, example_hotkey_entry]\<rparr>) =
     Some (Done
       (example_os\<lparr>delivered := [(10, 5, 0x100, 0x41, 0), (11, 5, 0x100, 0x41, 0),
                                  (10, 5, 0x100, 0x78, 0), (11, 5, 0x100, 0x78, 0)]\<rparr>,
        example_state_off))"
  by (simp add: HandleInputQueue.simps numeral_2_eq_2 LazyAttachThreadInput_def queue_pop_def
        example_subscribers_def example_key_entry_def example_hotkey_entry_def
        os_defs const_defs example_defs)

theorem hotkey_toggles_and_pending_entries_stay_witness:
  "WindowProcCallback 1 5 WM_KEYDOWN 0x41 0 False (example_os_on, example_state_visible) =
     Done (True, (example_os_on\<lparr>os_handles := [(1, 1)]\<rparr>,
                  example_state_visible\<lparr>queue := [example_key_entry]\<rparr>)) \<and>
   WindowProcCallback 1 5 WM_KEYDOWN VK_F9 0 False
      (example_os_on\<lparr>os_handles := [(1, 1)]\<rparr>,
       example_state_visible\<lparr>queue := [example_key_entry]\<rparr>) =
     Done (True, (example_os\<lparr>os_handles := [(2, 1), (1, 1)]\<rparr>,
                  example_state_off\<lparr>queue := [example_key_entry, example_hotkey_entry]\<rparr>)) \<and>
   os_GetAsyncKeyState VK_SHIFT (example_os_on\<lparr>os_handles := [(1, 1)]\<rparr>) AND 0x8000 \<noteq> 0 \<and>
   gui_visible (example_state_visible\<lparr>queue := [example_key_entry]\<rparr>) \<and>
   \<not> gui_visible (example_state_off\<lparr>queue := [example_key_entry, example_hotkey_entry]\<rparr>) \<and>
   HandleInputQueue 2 example_subscribers 1
      (example_os\<lparr>os_handles := [(2, 1), (1, 1)]\<rparr>,
       example_state_off\<lparr>queue := [example_key_entry, example_hotkey_entry]\<rparr>) =
     Some (Done
       (example_os\<lparr>delivered := [(10, 5, 0x100, 0x41, 0), (11, 5, 0x100, 0x41, 0),
                                  (10, 5, 0x100, 0x78, 0), (11, 5, 0x100, 0x78, 0)]\<rparr>,
        example_state_off)) \<and>
   (\<exists>es. [(10, 5, 0x100, 0x41, 0), (11, 5, 0x100, 0x41, 0),
          (10, 5, 0x100, 0x78, 0), (11, 5, 0x100, 0x78, 0)] =
         concat (map (deliveries example_subscribers) (example_key_entry # es)))"
proof -
  have k: "os_GetAsyncKeyState VK_SHIFT (example_os_on\<lparr>os_handles := [(1, 1)]\<rparr>) AND 0x8000 \<noteq> 0"
    by (simp add: os_GetAsyncKeyState_def example_os_on_def example_os_def)
  have v: "gui_visible (example_state_visible\<lparr>queue := [example_key_entry]\<rparr>)"
    "\<not> gui_visible (example_state_off\<lparr>queue := [example_key_entry, example_hotkey_entry]\<rparr>)"
    by (simp_all add: example_state_visible_def example_state_off_def initial_state_def)
  have q: "queue (example_state_visible\<lparr>queue := [example_key_entry]\<rparr>) = [example_key_entry]"
    by simp
  have d: "delivered (example_os\<lparr>os_handles := [(2, 1), (1, 1)]\<rparr>) = []"
    by (simp add: example_os_def)
  from hotkey_toggles_and_pending_entries_stay [OF example_hotkey] example_drain_after_hotkey
  have "\<exists>es. delivered (example_os\<lparr>delivered := [(10, 5, 0x100, 0x41, 0), (11, 5, 0x100, 0x41, 0),
                                  (10, 5, 0x100, 0x78, 0), (11, 5, 0x100, 0x78, 0)]\<rparr>) =
      delivered (example_os\<lparr>os_handles := [(2, 1), (1, 1)]\<rparr>) @
      concat (map (deliveries example_subscribers)
        (queue (example_state_visible\<lparr>queue := [example_key_entry]\<rparr>) @ es))"
    by blast
  with q d have e: "\<exists>es. [(10, 5, 0x100, 0x41, 0), (11, 5, 0x100, 0x41, 0),
          (10, 5, 0x100, 0x78, 0), (11, 5, 0x100, 0x78, 0)] =
         concat (map (deliveries example_subscribers) (example_key_entry # es))"
    by simp
  show ?thesis
    using hotkey_toggles_and_pending_entries_stay [OF example_hotkey]
      example_blocked_key example_hotkey example_drain_after_hotkey k v e
    by simp
qed

section \<open>The show counter\<close>

lemma run_steps_invariant:
  assumes "\<And>f w. f \<in> set fs \<Longrightarrow> P w \<Longrightarrow> P (world_of (f w))" and "P w"
  shows "P (world_of (run_steps fs w))"
  using assms
proof (induction fs arbitrary: w)
  case Nil
  then show ?case by simp
next
  case (Cons f fs)
  from Cons.prems have pf: "P (world_of (f w))" by simp
  show ?case
  proof (cases "f w")
    case (Done w')
    with pf Cons show ?thesis by simp
  next
    case (Raised e w')
    with pf show ?thesis by simp
  qed
qed

lemma RestoreRawInputDevices_loop_count:
  "show_cursor_count (snd (world_of (RestoreRawInputDevices_loop devs w))) =
     show_cursor_count (snd w)"
proof (induction devs arbitrary: w)
  case Nil
  then show ?case by simp
next
  case (Cons d devs)
  have r: "show_cursor_count (snd (world_of (RegisterRawInputDevicesWrapper d w))) =
             show_cursor_count (snd w)"
    by (cases w) (auto simp: RegisterRawInputDevicesWrapper_def split: sum.splits)
  show ?case
    using Cons.IH r
    by (cases "RegisterRawInputDevicesWrapper d w") auto
qed

lemma steps_keep_count:
  "show_cursor_count (snd (world_of (SetOrRestoreCursor v w))) = show_cursor_count (snd w)"
  "show_cursor_count (snd (world_of (SaveCurrentCursorPos w))) = show_cursor_count (snd w)"
  "show_cursor_count (snd (world_of (ClearOldCursorPos w))) = show_cursor_count (snd w)"
  "show_cursor_count (snd (world_of (RestoreOldCursorPos w))) = show_cursor_count (snd w)"
  "show_cursor_count (snd (world_of (SaveCurrentClipCursor w))) = show_cursor_count (snd w)"
  "show_cursor_count (snd (world_of (SetNewClipCursor w))) = show_cursor_count (snd w)"
  "show_cursor_count (snd (world_of (RestoreOldClipCursor w))) = show_cursor_count (snd w)"
  "show_cursor_count (snd (world_of (RestoreRawInputDevices w))) = show_cursor_count (snd w)"
  by (cases w; auto simp: SetOrRestoreCursor_def SaveCurrentCursorPos_def ClearOldCursorPos_def
        RestoreOldCursorPos_def SaveCurrentClipCursor_def SetNewClipCursor_def
        RestoreOldClipCursor_def ClipCursorWrap_def os_SetCursor_def
        RestoreRawInputDevices_def RestoreRawInputDevices_loop_count
        split: sum.splits if_splits prod.splits)+

lemma SetRawInputDevices_count:
  "show_cursor_count (snd (world_of (SetRawInputDevices w))) = show_cursor_count (snd w)"
  by (cases w)
     (auto simp: SetRawInputDevices_def RegisterRawInputDevicesWrapper_def
        DoesRawInputDeviceHaveMouseOrKeyboardDevice_def
        split: sum.splits if_splits prod.splits outcome.splits)

text \<open>The transition keeps a counter that is not negative that way, also when it throws.\<close>

lemma SetGuiVisibleForInput_nonneg:
  assumes "0 \<le> show_cursor_count (snd w)"
  shows "0 \<le> show_cursor_count (snd (world_of (SetGuiVisibleForInput visible old_visible w)))"
proof -
  have step: "0 \<le> show_cursor_count (snd (world_of (f w')))"
    if "f \<in> {SetOrRestoreCursor visible, SaveCurrentCursorPos, ShowCursor, SaveCurrentClipCursor,
              SetNewClipCursor, SetRawInputDevices, RestoreOldCursorPos, HideCursor,
              RestoreOldClipCursor, RestoreRawInputDevices, ClearOldCursorPos}"
      and "0 \<le> show_cursor_count (snd w')" for f w'
    using that
    by (cases w')
       (auto simp: steps_keep_count SetRawInputDevices_count ShowCursor_def HideCursor_def
          ShowCursor_loop_eq HideCursor_loop_eq)
  have inv: "0 \<le> show_cursor_count (snd (world_of (run_steps fs w)))"
    if "set fs \<subseteq> {SetOrRestoreCursor visible, SaveCurrentCursorPos, ShowCursor,
              SaveCurrentClipCursor, SetNewClipCursor, SetRawInputDevices, RestoreOldCursorPos,
              HideCursor, RestoreOldClipCursor, RestoreRawInputDevices, ClearOldCursorPos}" for fs
    using that assms
    by (intro run_steps_invariant[where P = "\<lambda>w. 0 \<le> show_cursor_count (snd w)"] step)
       blast+
  have on: "SetGuiVisibleForInput True False w =
      run_steps [SetOrRestoreCursor True, SaveCurrentCursorPos, ShowCursor,
                 SaveCurrentClipCursor, SetNewClipCursor, SetRawInputDevices] w"
    and off: "SetGuiVisibleForInput False True w =
      run_steps [SetOrRestoreCursor False, RestoreOldCursorPos, HideCursor,
                 RestoreOldClipCursor, RestoreRawInputDevices] w"
    and same_on: "SetGuiVisibleForInput True True w =
      run_steps [ClearOldCursorPos, SetNewClipCursor] w"
    and same_off: "SetGuiVisibleForInput False False w = run_steps [ClearOldCursorPos] w"
    by (simp_all add: SetGuiVisibleForInput_def split: outcome.splits)
  show ?thesis
  proof (cases visible)
    case True
    then show ?thesis
      by (cases old_visible) (simp_all only: on same_on, (rule inv, simp)+)
  next
    case False
    then show ?thesis
      by (cases old_visible) (simp_all only: off same_off, (rule inv, simp)+)
  qed
qed

lemma HandleInputQueue_count:
  "HandleInputQueue fuel callbacks current_tid w = Some r \<Longrightarrow>
     show_cursor_count (snd (world_of r)) = show_cursor_count (snd w)"
proof (induction fuel arbitrary: w)
  case 0
  then show ?case
    by (cases w) (auto simp: HandleInputQueue.simps split: list.splits)
next
  case (Suc fuel)
  obtain os st where w: "w = (os, st)" by (cases w)
  show ?case
  proof (cases "queue st")
    case Nil
    with Suc.prems w show ?thesis by (auto simp: HandleInputQueue.simps)
  next
    case (Cons msg rest)
    note k = LazyAttachThreadInput_keeps[of current_tid "m_tid msg" "(os, st)"]
    show ?thesis
    proof (cases "LazyAttachThreadInput current_tid (m_tid msg) (os, st)")
      case (Raised e w')
      with Cons Suc.prems w k show ?thesis
        by (auto simp: HandleInputQueue.simps)
    next
      case (Done w1)
      let ?w2 = "queue_pop (Run callbacks (m_hwnd msg) (m_msg msg) (m_wparam msg)
                   (m_lparam msg) w1)"
      from Cons Done Suc.prems w
      have "HandleInputQueue fuel callbacks current_tid ?w2 = Some r"
        by (simp add: HandleInputQueue.simps)
      from Suc.IH[OF this] have "show_cursor_count (snd (world_of r)) =
          show_cursor_count (snd ?w2)" .
      also have "\<dots> = show_cursor_count (snd w1)"
        by (cases w1) (simp add: Run_eq queue_pop_def split: list.splits)
      also from k Done have "\<dots> = show_cursor_count st" by simp
      finally show ?thesis using w by simp
    qed
  qed
qed

lemma step_nonneg:
  assumes "0 \<le> show_cursor_count (snd w)"
    and "e \<noteq> Ev_OnShowCursor False \<or> \<not> gui_visible (snd w)"
  shows "0 \<le> show_cursor_count (snd (step e w))"
proof (cases e)
  case (Ev_SetGuiVisibleForInput v old)
  then show ?thesis
    using SetGuiVisibleForInput_nonneg[of w v old] assms(1) by simp
next
  case (Ev_SetGuiVisible v old)
  then show ?thesis
    using SetGuiVisibleForInput_nonneg[of "(fst w, (snd w)\<lparr>gui_visible := v\<rparr>)" v old] assms(1)
    by (cases w) (simp add: SetGuiVisible_def)
next
  case (Ev_OnShowCursor b)
  with assms show ?thesis
    by (cases w) (auto simp: OnShowCursor_def Let_def)
next
  case (Ev_WindowProc current_tid hwnd msg wparam lparam)
  obtain os st where w: "w = (os, st)" by (cases w)
  show ?thesis
  proof (cases "os_OpenThread current_tid os")
    case (Inl code)
    with w Ev_WindowProc assms(1) show ?thesis by (simp add: WindowProcCallback_def)
  next
    case (Inr p)
    obtain thread os1 where p: "p = (thread, os1)" by (cases p)
    let ?st1 = "st\<lparr>queue := queue st @
                  [\<lparr>m_hwnd = hwnd, m_msg = msg, m_wparam = wparam, m_lparam = lparam,
                    m_tid = current_tid, m_thread = thread\<rparr>]\<rparr>"
    have "0 \<le> show_cursor_count (snd (world_of (ToggleGuiVisible (os1, ?st1))))"
      using SetGuiVisibleForInput_nonneg[of "(os1, ?st1\<lparr>gui_visible := \<not> gui_visible st\<rparr>)"
              "\<not> gui_visible st" "gui_visible st"] assms(1) w
      by (simp add: ToggleGuiVisible_def SetGuiVisible_def)
    with w Ev_WindowProc Inr p assms(1) show ?thesis
      by (auto simp: WindowProcCallback_def Let_def split: outcome.splits)
  qed
next
  case (Ev_HandleInputQueue fuel callbacks current_tid)
  with assms(1) show ?thesis
    by (auto split: option.splits dest: HandleInputQueue_count)
qed (use assms in \<open>cases w; auto simp: OnSetCursor_def OnSetCursorPos_def OnClipCursor_def
        split: option.splits\<close>)+

text \<open>
  Claim C4 says that the stored show counter is never below zero.  The show-cursor
  hook takes one off the counter for every \<open>ShowCursor (FALSE)\<close> of the host while the
  overlay is visible, as the platform's own counter does, without a lower bound: from
  the initial state in the concrete environment the turn-on brings the counter to
  \<open>2\<close>, and three hide calls of the host, made while the flag is set, bring it to
  \<open>-1\<close>.
\<close>

theorem show_count_goes_negative:
  "show_cursor_count initial_state = 0 \<and>
   run_events [Ev_GuiVisible True, Ev_SetGuiVisibleForInput True False, Ev_OnShowCursor False,
               Ev_OnShowCursor False, Ev_OnShowCursor False] (example_os, initial_state) =
     (example_os_on, example_state_visible\<lparr>show_cursor_count := - 1\<rparr>) \<and>
   counts_in_range
     [Ev_GuiVisible True, Ev_SetGuiVisibleForInput True False, Ev_OnShowCursor False,
      Ev_OnShowCursor False, Ev_OnShowCursor False] (example_os, initial_state)"
  by (simp add: SetGuiVisibleForInput_def step_defs os_defs const_defs
        example_defs example_state_visible_def OnShowCursor_def Let_def
        in_int_range_def INT_MIN_def INT_MAX_def)

lemma run_events_nonneg:
  "0 \<le> show_cursor_count (snd w) \<Longrightarrow> no_hide_while_visible es w \<Longrightarrow>
     0 \<le> show_cursor_count (snd (run_events es w))"
proof (induction es arbitrary: w)
  case Nil
  then show ?case by simp
next
  case (Cons e es)
  from Cons.prems have "0 \<le> show_cursor_count (snd (step e w))"
    by (intro step_nonneg) auto
  with Cons show ?case by simp
qed

text \<open>
  Claim C4, amended.  Along every run of the system in which the host makes no
  hide-cursor hook call while the overlay is visible, and in which the counter stays
  within the range of the code's 32-bit \<open>int\<close> (so that the code does not overflow), a
  show counter that is not negative stays so: the show loop of the turn-on and the
  show-cursor hook only add to it, the hide loop of the turn-off stops at zero, and
  nothing else writes it.  The runs are made of calls that set the visibility (with
  any arguments, returning or throwing), of hook calls, window messages, drains and
  changes of the platform's state.  A hide-cursor hook call while the overlay is
  visible takes one off the counter, whatever the counter is above \<open>INT_MIN\<close>, and
  returns the new value.
\<close>

theorem show_count_nonnegative_without_visible_hide:
  "(0 \<le> show_cursor_count (snd w) \<and> no_hide_while_visible es w \<and> counts_in_range es w \<longrightarrow>
      0 \<le> show_cursor_count (snd (run_events es w))) \<and>
   (gui_visible st \<and> INT_MIN < show_cursor_count st \<and> show_cursor_count st \<le> INT_MAX \<longrightarrow>
      OnShowCursor False (handled, retval) st =
        (st\<lparr>show_cursor_count := show_cursor_count st - 1\<rparr>, True, show_cursor_count st - 1))"
  using run_events_nonneg [of w es]
  by (simp add: OnShowCursor_def Let_def)

lemma example_run:
  "run_events [Ev_GuiVisible True, Ev_SetGuiVisibleForInput True False, Ev_OnShowCursor True,
               Ev_OnSetCursorPos 1 2, Ev_SetGuiVisible False True, Ev_OnShowCursor False]
     (example_os, initial_state) =
   (example_os\<lparr>os_cursor_pos := \<lparr>x = 1, y = 2\<rparr>, os_show_count := - 3\<rparr>, example_state_off)"
  by (simp add: SetGuiVisible_def SetGuiVisibleForInput_def step_defs os_defs const_defs
        example_defs OnShowCursor_def OnSetCursorPos_def Let_def)

lemma example_run_allowed:
  "no_hide_while_visible
     [Ev_GuiVisible True, Ev_SetGuiVisibleForInput True False, Ev_OnShowCursor True,
      Ev_OnSetCursorPos 1 2, Ev_SetGuiVisible False True, Ev_OnShowCursor False]
     (example_os, initial_state)"
  by (simp add: SetGuiVisible_def SetGuiVisibleForInput_def step_defs os_defs const_defs
        example_defs OnShowCursor_def OnSetCursorPos_def Let_def)

lemma example_run_in_range:
  "counts_in_range
     [Ev_GuiVisible True, Ev_SetGuiVisibleForInput True False, Ev_OnShowCursor True,
      Ev_OnSetCursorPos 1 2, Ev_SetGuiVisible False True, Ev_OnShowCursor False]
     (example_os, initial_state)"
  by (simp add: SetGuiVisible_def SetGuiVisibleForInput_def step_defs os_defs const_defs
        example_defs OnShowCursor_def OnSetCursorPos_def Let_def
        in_int_range_def INT_MIN_def INT_MAX_def)

theorem show_count_nonnegative_without_visible_hide_witness:
  "0 \<le> show_cursor_count (snd (example_os, initial_state)) \<and>
   no_hide_while_visible
     [Ev_GuiVisible True, Ev_SetGuiVisibleForInput True False, Ev_OnShowCursor True,
      Ev_OnSetCursorPos 1 2, Ev_SetGuiVisible False True, Ev_OnShowCursor False]
     (example_os, initial_state) \<and>
   counts_in_range
     [Ev_GuiVisible True, Ev_SetGuiVisibleForInput True False, Ev_OnShowCursor True,
      Ev_OnSetCursorPos 1 2, Ev_SetGuiVisible False True, Ev_OnShowCursor False]
     (example_os, initial_state) \<and>
   run_events [Ev_GuiVisible True, Ev_SetGuiVisibleForInput True False, Ev_OnShowCursor True,
               Ev_OnSetCursorPos 1 2, Ev_SetGuiVisible False True, Ev_OnShowCursor False]
     (example_os, initial_state) =
   (example_os\<lparr>os_cursor_pos := \<lparr>x = 1, y = 2\<rparr>, os_show_count := - 3\<rparr>, example_state_off) \<and>
   0 \<le> show_cursor_count (snd (example_os\<lparr>os_cursor_pos := \<lparr>x = 1, y = 2\<rparr>,
                                            os_show_count := - 3\<rparr>, example_state_off)) \<and>
   gui_visible example_state_visible \<and>
   INT_MIN < show_cursor_count example_state_visible \<and>
   show_cursor_count example_state_visible \<le> INT_MAX \<and>
   OnShowCursor False (False, 0) example_state_visible =
     (example_state_visible\<lparr>show_cursor_count := 1\<rparr>, True, 1)"
proof -
  have z: "0 \<le> show_cursor_count (snd (example_os, initial_state))"
    by (simp add: initial_state_def)
  have v: "gui_visible example_state_visible"
    by (simp add: example_state_visible_def)
  have c: "show_cursor_count example_state_visible = 2"
    by (simp add: example_state_visible_def example_state_on_def)
  have b: "INT_MIN < (2 :: int)" "(2 :: int) \<le> INT_MAX"
    by (simp_all add: INT_MIN_def INT_MAX_def)
  show ?thesis
    using show_count_nonnegative_without_visible_hide
        [of "(example_os, initial_state)"
            "[Ev_GuiVisible True, Ev_SetGuiVisibleForInput True False, Ev_OnShowCursor True,
              Ev_OnSetCursorPos 1 2, Ev_SetGuiVisible False True, Ev_OnShowCursor False]"
            example_state_visible False 0]
      z v c b example_run example_run_allowed example_run_in_range
    by simp
qed

end
